theory Spec2Isabelle
  imports Main "HOL-Library.Char_ord" "HOL-Library.List_Lexorder"
begin

section \<open>Python strings\<close>

text \<open>
  A Python \<open>str\<close> is a sequence of code points. A \<^typ>\<open>char\<close> stands for a code
  point below 256, so a \<^typ>\<open>string\<close> is a Python string over that range. The order
  on strings is Python's: lexicographic by code point.
\<close>

definition TAB :: char where "TAB = CHR 0x09"
definition LF :: char where "LF = CHR 0x0A"
definition CR :: char where "CR = CHR 0x0D"
definition DQUOTE :: char where "DQUOTE = CHR 0x22"

text \<open>\<open>str.isspace\<close> on one character, for the code points below 256.\<close>

definition py_isspace :: "char \<Rightarrow> bool" where
  "py_isspace c = (c \<in> set [CHR 0x09, CHR 0x0A, CHR 0x0B, CHR 0x0C, CHR 0x0D,
                              CHR 0x1C, CHR 0x1D, CHR 0x1E, CHR 0x1F, CHR 0x20,
                              CHR 0x85, CHR 0xA0])"

text \<open>\<open>s.strip()\<close>: leading and trailing whitespace removed.\<close>

definition strip :: "string \<Rightarrow> string" where
  "strip s = rev (dropWhile py_isspace (rev (dropWhile py_isspace s)))"

text \<open>\<open>s.split(sep)\<close> for a separator of one character: never an empty list.\<close>

fun split_on :: "char \<Rightarrow> string \<Rightarrow> string list" where
  "split_on sep [] = [[]]"
| "split_on sep (c # cs) =
     (if c = sep then [] # split_on sep cs
      else (case split_on sep cs of
              [] \<Rightarrow> [[c]]
            | f # fs \<Rightarrow> (c # f) # fs))"

text \<open>\<open>sep.join(xs)\<close>.\<close>

fun join :: "string \<Rightarrow> string list \<Rightarrow> string" where
  "join sep [] = []"
| "join sep [x] = x"
| "join sep (x # y # ys) = x @ sep @ join sep (y # ys)"

text \<open>\<open>str(n)\<close> for a non-negative integer.\<close>

definition digit_char :: "nat \<Rightarrow> char" where
  "digit_char d = char_of (of_char (CHR ''0'') + d)"

fun str_nat :: "nat \<Rightarrow> string" where
  "str_nat n = (if n < 10 then [digit_char n] else str_nat (n div 10) @ [digit_char (n mod 10)])"

declare str_nat.simps [simp del]

definition str_int :: "int \<Rightarrow> string" where
  "str_int i = (if i < 0 then CHR ''-'' # str_nat (nat (- i)) else str_nat (nat i))"

section \<open>Exceptions\<close>

text \<open>
  The exceptions the body of \<open>process_corum_data\<close> can raise, by the class the
  \<open>except\<close> clauses tell apart. Each carries \<open>str(e)\<close>.
\<close>

datatype exn =
    FileNotFoundError string
  | ParserError string
  | OtherException string

fun str_exn :: "exn \<Rightarrow> string" where
  "str_exn (FileNotFoundError m) = m"
| "str_exn (ParserError m) = m"
| "str_exn (OtherException m) = m"

text \<open>
  The \<open>ValueError\<close> of the unpacking \<open>a, _, b = xs\<close> when \<open>xs\<close> has \<open>n \<noteq> 3\<close>
  elements (message of CPython 3).
\<close>

definition unpack_error :: "nat \<Rightarrow> exn" where
  "unpack_error n =
     (if n < 3
      then OtherException (''not enough values to unpack (expected 3, got '' @ str_nat n @ '')'')
      else OtherException ''too many values to unpack (expected 3)'')"

section \<open>The inverter (source lines 34 to 57)\<close>

text \<open>
  The text file as Python reads it: with the default \<open>newline=None\<close> the line breaks
  \<open>\r\n\<close> and \<open>\r\<close> are translated to \<open>\n\<close>.
\<close>

fun universal_newlines :: "string \<Rightarrow> string" where
  "universal_newlines [] = []"
| "universal_newlines [c] = (if c = CR then [LF] else [c])"
| "universal_newlines (c # d # cs) =
     (if c = CR \<and> d = LF then LF # universal_newlines cs
      else if c = CR then LF # universal_newlines (d # cs)
      else c # universal_newlines (d # cs))"

text \<open>Iterating over the file: each line keeps its \<open>\n\<close>; the last may lack it.\<close>

fun file_lines :: "string \<Rightarrow> string list" where
  "file_lines [] = []"
| "file_lines (c # cs) =
     (if c = LF then [LF] # file_lines cs
      else (case file_lines cs of
              [] \<Rightarrow> [[c]]
            | l # ls \<Rightarrow> (c # l) # ls))"

text \<open>
  \<open>complexes_dict\<close>: a Python dict, as the association list of its items in insertion
  order. Its keys are distinct.
\<close>

type_synonym index = "(string \<times> string list) list"

definition keys :: "index \<Rightarrow> string list" where
  "keys d = map fst d"

definition lookup :: "index \<Rightarrow> string \<Rightarrow> string list" where
  "lookup d k = (case map_of d k of None \<Rightarrow> [] | Some cs \<Rightarrow> cs)"

text \<open>\<open>complexes_dict[subunit].append(complex_id)\<close>, on a key that is present.\<close>

fun append_to :: "index \<Rightarrow> string \<Rightarrow> string \<Rightarrow> index" where
  "append_to [] k c = []"
| "append_to ((k', cs) # d) k c =
     (if k' = k then (k', cs @ [c]) # d else (k', cs) # append_to d k c)"

text \<open>Lines 45 to 47: create the entry on first sight, then append.\<close>

definition add_entry :: "index \<Rightarrow> string \<Rightarrow> string \<Rightarrow> index" where
  "add_entry d subunit complex_id =
     append_to (if subunit \<notin> set (keys d) then d @ [(subunit, [])] else d) subunit complex_id"

text \<open>Lines 41 to 47: the loop over \<open>subunits_uniprot_id.split(';')\<close>.\<close>

fun scan_subunits :: "index \<Rightarrow> string \<Rightarrow> string list \<Rightarrow> index" where
  "scan_subunits d complex_id [] = d"
| "scan_subunits d complex_id (subunit # rest) =
     (let subunit = strip subunit
      in if subunit \<noteq> [] then scan_subunits (add_entry d subunit complex_id) complex_id rest
         else scan_subunits d complex_id rest)"

text \<open>Line 39: the three-way unpacking of the stripped line, split on tab.\<close>

definition unpack_line :: "string \<Rightarrow> exn + (string \<times> string)" where
  "unpack_line line =
     (case split_on TAB (strip line) of
        [complex_id, _, subunits_uniprot_id] \<Rightarrow> Inr (complex_id, subunits_uniprot_id)
      | fields \<Rightarrow> Inl (unpack_error (length fields)))"

text \<open>Lines 37 to 47: the loop over the data lines; the first exception ends it.\<close>

fun scan_lines :: "index \<Rightarrow> string list \<Rightarrow> exn + index" where
  "scan_lines d [] = Inr d"
| "scan_lines d (line # rest) =
     (case unpack_line line of
        Inl e \<Rightarrow> Inl e
      | Inr (complex_id, subunits_uniprot_id) \<Rightarrow>
          scan_lines (scan_subunits d complex_id (split_on (CHR '';'') subunits_uniprot_id)) rest)"

text \<open>Lines 35 and 36: \<open>next(sma_file)\<close> raises \<open>StopIteration\<close> on an empty file.\<close>

definition build_index :: "string \<Rightarrow> exn + index" where
  "build_index text =
     (case file_lines (universal_newlines text) of
        [] \<Rightarrow> Inl (OtherException [])
      | header # data \<Rightarrow> scan_lines [] data)"

text \<open>Lines 51 to 57: the rows of the final file, one per key in sorted order.\<close>

definition final_rows :: "index \<Rightarrow> (string \<times> string list) list" where
  "final_rows d = map (\<lambda>subunit. (subunit, lookup d subunit)) (sort (keys d))"

definition row_text :: "string \<times> string list \<Rightarrow> string" where
  "row_text r = fst r @ [TAB] @ join ''|'' (snd r) @ [LF]"

definition complexes_text :: "index \<Rightarrow> string" where
  "complexes_text d =
     (''subunits_uniprot_id'' @ [TAB] @ ''complex_ids'' @ [LF]) @ concat (map row_text (final_rows d))"

section \<open>The loader, the filter and the relation writer (source lines 26 to 31)\<close>

text \<open>
  A pandas \<open>DataFrame\<close> as \<open>read_csv\<close> returns it: the column labels and the rows.
  A cell is a string, an integer or a missing value (\<open>NaN\<close>); \<open>float64\<close> cells
  other than \<open>NaN\<close> are left out. \<open>read_csv\<close> makes the labels distinct and every row
  as long as the header.
\<close>

datatype cell = Str string | Num int | NaN

record dataframe =
  columns :: "string list"
  rows :: "cell list list"


definition SQUOTE :: char where "SQUOTE = CHR 0x27"

text \<open>\<open>repr\<close> of a list of labels, for labels without quotes or backslashes.\<close>

definition repr_labels :: "string list \<Rightarrow> string" where
  "repr_labels names = ''['' @ join '', '' (map (\<lambda>n. [SQUOTE] @ n @ [SQUOTE]) names) @ '']''"

fun index_of :: "'a \<Rightarrow> 'a list \<Rightarrow> nat option" where
  "index_of x [] = None"
| "index_of x (y # ys) = (if x = y then Some 0 else map_option Suc (index_of x ys))"

text \<open>The cell of row \<open>r\<close> under the label \<open>name\<close>.\<close>

definition cell_of :: "dataframe \<Rightarrow> string \<Rightarrow> cell list \<Rightarrow> cell" where
  "cell_of df name r = (case index_of name (columns df) of None \<Rightarrow> NaN | Some i \<Rightarrow> r ! i)"

text \<open>\<open>df[name]\<close>: the column, or \<open>KeyError(name)\<close>.\<close>

definition getitem_column :: "dataframe \<Rightarrow> string \<Rightarrow> exn + cell list" where
  "getitem_column df name =
     (if name \<in> set (columns df) then Inr (map (cell_of df name) (rows df))
      else Inl (OtherException ([SQUOTE] @ name @ [SQUOTE])))"

text \<open>One element of \<open>series == 'Human'\<close>: only an equal string compares equal.\<close>

fun eq_str :: "cell \<Rightarrow> string \<Rightarrow> bool" where
  "eq_str (Str s) t = (s = t)"
| "eq_str (Num i) t = False"
| "eq_str NaN t = False"

text \<open>\<open>df[mask]\<close>: the rows whose mask element is \<open>True\<close>, in order.\<close>

definition getitem_mask :: "dataframe \<Rightarrow> bool list \<Rightarrow> dataframe" where
  "getitem_mask df bools = df\<lparr>rows := map fst (filter snd (zip (rows df) bools))\<rparr>"

text \<open>\<open>df[[names]]\<close>: the named columns in the order asked, or \<open>KeyError\<close> (pandas 2 wording).\<close>

definition getitem_columns :: "dataframe \<Rightarrow> string list \<Rightarrow> exn + dataframe" where
  "getitem_columns df names =
     (let missing = filter (\<lambda>n. n \<notin> set (columns df)) names
      in if missing = []
         then Inr \<lparr>columns = names, rows = map (\<lambda>r. map (\<lambda>n. cell_of df n r) names) (rows df)\<rparr>
         else if length missing = length names
         then Inl (OtherException ([DQUOTE] @ ''None of [Index('' @ repr_labels names @ '', dtype=''
                     @ [SQUOTE] @ ''object'' @ [SQUOTE] @ '')] are in the [columns]'' @ [DQUOTE]))
         else Inl (OtherException ([DQUOTE] @ repr_labels (remdups missing) @ '' not in index'' @ [DQUOTE])))"

text \<open>Lines 27 and 30.\<close>

definition human_records :: "dataframe \<Rightarrow> exn + dataframe" where
  "human_records df =
     (case getitem_column df ''organism'' of
        Inl e \<Rightarrow> Inl e
      | Inr organism \<Rightarrow>
          getitem_columns (getitem_mask df (map (\<lambda>c. eq_str c ''Human'') organism))
            [''complex_id'', ''complex_name'', ''subunits_uniprot_id''])"

text \<open>
  Line 31, \<open>to_csv(sep='\t', index=False, header=True)\<close>. The other options keep their
  defaults: a missing value is written as the empty string, the line ends with \<open>\n\<close>, and
  a field is quoted under \<open>csv.QUOTE_MINIMAL\<close>: enclosed in double quotes, its own double
  quotes doubled, when it holds the separator, a double quote or a line break.
\<close>

fun cell_text :: "cell \<Rightarrow> string" where
  "cell_text (Str s) = s"
| "cell_text (Num i) = str_int i"
| "cell_text NaN = []"

definition needs_quoting :: "string \<Rightarrow> bool" where
  "needs_quoting s = list_ex (\<lambda>c. c \<in> set [TAB, DQUOTE, LF, CR]) s"

definition csv_field :: "string \<Rightarrow> string" where
  "csv_field s =
     (if needs_quoting s
      then [DQUOTE] @ concat (map (\<lambda>c. if c = DQUOTE then [DQUOTE, DQUOTE] else [c]) s) @ [DQUOTE]
      else s)"

definition csv_row :: "string list \<Rightarrow> string" where
  "csv_row texts = join [TAB] (map csv_field texts) @ [LF]"

definition to_csv :: "dataframe \<Rightarrow> string" where
  "to_csv df = csv_row (columns df) @ concat (map (\<lambda>r. csv_row (map cell_text r)) (rows df))"

section \<open>The run\<close>

text \<open>
  The file system maps a path to the text of the file. Two parts of the environment are
  parameters: \<open>parser\<close>, what pandas makes of the text of the input file, and
  \<open>open_w\<close>, the exception, if any, that opening a path for writing raises.
\<close>

type_synonym filesystem = "string \<Rightarrow> string option"

definition read_csv :: "(string \<Rightarrow> exn + dataframe) \<Rightarrow> filesystem \<Rightarrow> string \<Rightarrow> exn + dataframe" where
  "read_csv parser fs input_file =
     (case fs input_file of
        None \<Rightarrow> Inl (FileNotFoundError (''[Errno 2] No such file or directory: ''
                        @ [SQUOTE] @ input_file @ [SQUOTE]))
      | Some text \<Rightarrow> parser text)"

text \<open>Lines 35 to 47: open the intermediate file and scan it.\<close>

definition read_index :: "filesystem \<Rightarrow> string \<Rightarrow> exn + index" where
  "read_index fs output_sma_file =
     (case fs output_sma_file of
        None \<Rightarrow> Inl (FileNotFoundError (''[Errno 2] No such file or directory: ''
                        @ [SQUOTE] @ output_sma_file @ [SQUOTE]))
      | Some text \<Rightarrow> build_index text)"

text \<open>
  The body of the \<open>try\<close>: the file system it leaves, and the exception that ended it,
  if any.
\<close>

definition try_body ::
  "(string \<Rightarrow> exn + dataframe) \<Rightarrow> (string \<Rightarrow> exn option) \<Rightarrow> filesystem
     \<Rightarrow> string \<Rightarrow> string \<Rightarrow> string \<Rightarrow> filesystem \<times> exn option" where
  "try_body parser open_w fs input_file output_sma_file output_complexes_file =
     (case read_csv parser fs input_file of
        Inl e \<Rightarrow> (fs, Some e)
      | Inr df \<Rightarrow>
     (case human_records df of
        Inl e \<Rightarrow> (fs, Some e)
      | Inr sma_df \<Rightarrow>
     (case open_w output_sma_file of
        Some e \<Rightarrow> (fs, Some e)
      | None \<Rightarrow>
     (let fs1 = fs(output_sma_file \<mapsto> to_csv sma_df)
      in case read_index fs1 output_sma_file of
        Inl e \<Rightarrow> (fs1, Some e)
      | Inr complexes_dict \<Rightarrow>
     (case open_w output_complexes_file of
        Some e \<Rightarrow> (fs1, Some e)
      | None \<Rightarrow> (fs1(output_complexes_file \<mapsto> complexes_text complexes_dict), None))))))"

text \<open>Lines 59 to 64: the line each \<open>except\<close> clause prints.\<close>

fun diagnostic :: "string \<Rightarrow> exn \<Rightarrow> string" where
  "diagnostic input_file (FileNotFoundError m) =
     ''Error: Input file '' @ [SQUOTE] @ input_file @ [SQUOTE] @ '' not found.''"
| "diagnostic input_file (ParserError m) =
     ''Error: Could not parse input file '' @ [SQUOTE] @ input_file @ [SQUOTE] @ ''. Check file format.''"
| "diagnostic input_file (OtherException m) = ''An unexpected error occurred: '' @ m"

text \<open>\<open>process_corum_data\<close>: the file system it leaves and the lines it prints.\<close>

definition process_corum_data ::
  "(string \<Rightarrow> exn + dataframe) \<Rightarrow> (string \<Rightarrow> exn option) \<Rightarrow> filesystem
     \<Rightarrow> string \<Rightarrow> string \<Rightarrow> string \<Rightarrow> filesystem \<times> string list" where
  "process_corum_data parser open_w fs input_file output_sma_file output_complexes_file =
     (case try_body parser open_w fs input_file output_sma_file output_complexes_file of
        (fs', None) \<Rightarrow> (fs', [])
      | (fs', Some e) \<Rightarrow> (fs', [diagnostic input_file e]))"

section \<open>Notions the properties are stated with\<close>

text \<open>
  The non-empty, whitespace-trimmed tokens of a subunits field, in order (lines 41 to 43
  without the index).
\<close>

definition tokens :: "string \<Rightarrow> string list" where
  "tokens s = filter (\<lambda>t. t \<noteq> []) (map strip (split_on (CHR '';'') s))"

text \<open>
  A retained row, as line 39 reads it from the intermediate file, is a pair of its
  complex_id and its subunits field. \<open>encounters rs t\<close> is the complex_id of every
  occurrence of the token \<open>t\<close>, scanning the rows \<open>rs\<close> top to bottom and each row left
  to right; \<open>occurrences rs t\<close> counts the occurrences of \<open>t\<close> in all rows.
\<close>

definition encounters :: "(string \<times> string) list \<Rightarrow> string \<Rightarrow> string list" where
  "encounters rs t =
     concat (map (\<lambda>r. map (\<lambda>u. fst r) (filter (\<lambda>u. u = t) (tokens (snd r)))) rs)"

definition occurrences :: "(string \<times> string) list \<Rightarrow> string \<Rightarrow> nat" where
  "occurrences rs t = sum_list (map (\<lambda>r. count_list (tokens (snd r)) t) rs)"

definition occurrences_in :: "string \<Rightarrow> (string \<times> string) list \<Rightarrow> string \<Rightarrow> nat" where
  "occurrences_in c rs t =
     sum_list (map (\<lambda>r. if fst r = c then count_list (tokens (snd r)) t else 0) rs)"

text \<open>
  The line \<open>l\<close> accounts for the complex_id \<open>c\<close> in the list of the key \<open>k\<close>: line 39
  unpacks it to the complex_id \<open>c\<close> and a subunits field with the token \<open>k\<close>.
\<close>

definition justifies :: "string \<Rightarrow> string \<Rightarrow> string \<Rightarrow> bool" where
  "justifies k c l =
     (case unpack_line l of Inl e \<Rightarrow> False | Inr r \<Rightarrow> fst r = c \<and> k \<in> set (tokens (snd r)))"

definition sound_index :: "string list \<Rightarrow> index \<Rightarrow> bool" where
  "sound_index ls d =
     list_all (\<lambda>entry. snd entry \<noteq> [] \<and> list_all (\<lambda>c. list_ex (justifies (fst entry) c) ls) (snd entry)) d"

text \<open>The FilteredRecord of a row: its three projected cells.\<close>

definition record_of :: "dataframe \<Rightarrow> cell list \<Rightarrow> cell list" where
  "record_of df r =
     [cell_of df ''complex_id'' r, cell_of df ''complex_name'' r, cell_of df ''subunits_uniprot_id'' r]"

definition is_human :: "dataframe \<Rightarrow> cell list \<Rightarrow> bool" where
  "is_human df r = (cell_of df ''organism'' r = Str ''Human'')"

definition sma_columns :: "string list" where
  "sma_columns = [''complex_id'', ''complex_name'', ''subunits_uniprot_id'']"

definition required_columns :: "string list" where
  "required_columns = [''organism'', ''complex_id'', ''complex_name'', ''subunits_uniprot_id'']"

text \<open>The text of a cell needs no quoting.\<close>

definition plain :: "cell \<Rightarrow> bool" where
  "plain x = list_all (\<lambda>ch. ch \<noteq> TAB \<and> ch \<noteq> DQUOTE \<and> ch \<noteq> LF \<and> ch \<noteq> CR) (cell_text x)"

text \<open>The text \<open>p\<close> occurs in the text \<open>s\<close>.\<close>

definition mentions :: "string \<Rightarrow> string \<Rightarrow> bool" where
  "mentions s p = list_ex (\<lambda>i. take (length p) (drop i s) = p) [0..<Suc (length s)]"

text \<open>\<open>s.rstrip()\<close>: trailing whitespace removed.\<close>

definition rstrip :: "string \<Rightarrow> string" where
  "rstrip s = rev (dropWhile py_isspace (rev s))"

text \<open>
  A FilteredRecord that line 39 reads back as it was written: no field holds a tab, a
  line feed or a carriage return; the complex_id and the subunits field hold no double
  quote; the complex_id is not empty and does not begin with whitespace; the subunits
  field holds a character that is not whitespace.
\<close>

fun clean_record :: "cell list \<Rightarrow> bool" where
  "clean_record [a, b, c] =
     (plain a \<and> (case cell_text a of [] \<Rightarrow> False | ch # rest \<Rightarrow> \<not> py_isspace ch)
      \<and> list_all (\<lambda>ch. ch \<noteq> TAB \<and> ch \<noteq> LF \<and> ch \<noteq> CR) (cell_text b)
      \<and> plain c \<and> list_ex (\<lambda>ch. \<not> py_isspace ch) (cell_text c))"
| "clean_record r = False"

text \<open>The retained rows: the complex_id and the subunits field of every Human row.\<close>

definition retained :: "dataframe \<Rightarrow> (string \<times> string) list" where
  "retained df =
     map (\<lambda>r. (cell_text (cell_of df ''complex_id'' r), cell_text (cell_of df ''subunits_uniprot_id'' r)))
       (filter (is_human df) (rows df))"

text \<open>
  What the writer puts for a cell: its text, or, when the text holds a tab, a double
  quote, a line feed or a carriage return, the text between double quotes with every
  double quote in it doubled.
\<close>

definition quoted :: "string \<Rightarrow> string" where
  "quoted s =
     [DQUOTE] @ concat (map (\<lambda>ch. if ch = DQUOTE then [DQUOTE, DQUOTE] else [ch]) s) @ [DQUOTE]"

definition written :: "cell \<Rightarrow> string" where
  "written x = (if plain x then cell_text x else quoted (cell_text x))"

section \<open>Example inputs\<close>


definition example_lines :: "string list" where
  "example_lines =
     [''7'' @ [TAB] @ ''Foo'' @ [TAB] @ ''P2;P1; P2'' @ [LF],
      ''9'' @ [TAB] @ ''Bar'' @ [TAB] @ ''Q1;P1;'' @ [LF]]"

definition shared_lines :: "string list" where
  "shared_lines =
     [''A'' @ [TAB] @ ''x'' @ [TAB] @ ''P1'' @ [LF],
      ''B'' @ [TAB] @ ''y'' @ [TAB] @ ''P1'' @ [LF]]"

definition padded_line :: string where
  "padded_line = '' C1'' @ [TAB] @ ''Foo'' @ [TAB] @ ''P1'' @ [LF]"

definition corum_example :: dataframe where
  "corum_example =
     \<lparr>columns = [''complex_id'', ''organism'', ''complex_name'', ''cell_line'', ''subunits_uniprot_id''],
      rows = [[Num 7, Str ''Human'', Str ''Foo'', NaN, Str ''P2;P1; P2''],
              [Num 8, Str ''Mouse'', Str ''Moo'', Str ''x'', Str ''P1''],
              [Num 9, Str ''Human'', Str ''Bar'', NaN, Str ''Q1;P1;''],
              [Num 10, Str ''human'', Str ''Baz'', NaN, Str ''P2'']]\<rparr>"

definition quoted_example :: dataframe where
  "quoted_example =
     \<lparr>columns = [''complex_id'', ''complex_name'', ''organism'', ''subunits_uniprot_id''],
      rows = [[Str ''C1'', Str (''Fo'' @ [TAB] @ ''o''), Str ''Human'', Str ''P1'']]\<rparr>"

text \<open>
  An environment for the examples: the input file parses to a given frame, every path
  can be written, and only the input file exists.
\<close>

definition parses_to :: "dataframe \<Rightarrow> string \<Rightarrow> exn + dataframe" where
  "parses_to df text = Inr df"

definition writable :: "string \<Rightarrow> exn option" where
  "writable path = None"

definition only_input :: filesystem where
  "only_input = Map.empty(''in.txt'' \<mapsto> [])"

definition empty_subunits_example :: dataframe where
  "empty_subunits_example =
     \<lparr>columns = [''complex_id'', ''complex_name'', ''organism'', ''subunits_uniprot_id''],
      rows = [[Str ''C1'', Str ''Foo'', Str ''Human'', NaN],
              [Str ''C2'', Str ''Bar'', Str ''Human'', Str ''P1'']]\<rparr>"

definition leading_tab_example :: dataframe where
  "leading_tab_example =
     \<lparr>columns = [''complex_id'', ''complex_name'', ''organism'', ''subunits_uniprot_id''],
      rows = [[NaN, Str (''Fo'' @ [TAB] @ ''o''), Str ''Human'', Str ''P1'']]\<rparr>"

definition sma_header :: string where
  "sma_header = ''complex_id'' @ [TAB] @ ''complex_name'' @ [TAB] @ ''subunits_uniprot_id'' @ [LF]"

definition complexes_header :: string where
  "complexes_header = ''subunits_uniprot_id'' @ [TAB] @ ''complex_ids'' @ [LF]"

text \<open>The files after a run on \<open>corum_example\<close>.\<close>

definition first_run_files :: filesystem where
  "first_run_files =
     Map.empty(''in.txt'' \<mapsto> [],
       ''sma.txt'' \<mapsto> to_csv \<lparr>columns = sma_columns,
          rows = [[Num 7, Str ''Foo'', Str ''P2;P1; P2''], [Num 9, Str ''Bar'', Str ''Q1;P1;'']]\<rparr>,
       ''out.txt'' \<mapsto> complexes_text [(''P2'', [''7'', ''7'']), (''P1'', [''7'', ''9'']), (''Q1'', [''9''])])"

definition padded_example :: dataframe where
  "padded_example =
     \<lparr>columns = [''complex_id'', ''complex_name'', ''organism'', ''subunits_uniprot_id''],
      rows = [[Str '' C1'', Str ''Foo'', Str ''Human'', Str ''P1'']]\<rparr>"

definition shared_example :: dataframe where
  "shared_example =
     \<lparr>columns = [''complex_id'', ''complex_name'', ''organism'', ''subunits_uniprot_id''],
      rows = [[Str ''A'', Str ''x'', Str ''Human'', Str ''P1''],
              [Str ''B'', Str ''y'', Str ''Human'', Str ''P1'']]\<rparr>"

definition quoted_sma :: dataframe where
  "quoted_sma =
     \<lparr>columns = [''complex_id'', ''complex_name'', ''subunits_uniprot_id''],
      rows = [[Str ''C1'', Str (''Fo'' @ [TAB] @ ''o''), Str ''P1'']]\<rparr>"

definition quoted_line :: string where
  "quoted_line = ''C1'' @ [TAB] @ [DQUOTE] @ ''Fo'' @ [TAB] @ ''o'' @ [DQUOTE] @ [TAB] @ ''P1'' @ [LF]"

definition fails_to_parse :: "string \<Rightarrow> exn + dataframe" where
  "fails_to_parse text = Inl (ParserError ''Error tokenizing data'')"

definition raises_at :: "string \<Rightarrow> exn \<Rightarrow> string \<Rightarrow> exn option" where
  "raises_at p e path = (if path = p then Some e else None)"

definition corum_sma :: dataframe where
  "corum_sma =
     \<lparr>columns = [''complex_id'', ''complex_name'', ''subunits_uniprot_id''],
      rows = [[Num 7, Str ''Foo'', Str ''P2;P1; P2''], [Num 9, Str ''Bar'', Str ''Q1;P1;'']]\<rparr>"

definition quote_token_example :: dataframe where
  "quote_token_example =
     \<lparr>columns = [''complex_id'', ''complex_name'', ''organism'', ''subunits_uniprot_id''],
      rows = [[Str ''C1'', Str ''Foo'', Str ''Human'', Str (''P1;Q'' @ [DQUOTE] @ ''2'')]]\<rparr>"

section \<open>The index during the scan\<close>

lemma keys_append_to: "keys (append_to d k c) = keys d"
  by (induction d k c rule: append_to.induct) (auto simp: keys_def)

lemma map_of_append_to:
  "map_of (append_to d k c) k' =
     (if k' = k then map_option (\<lambda>cs. cs @ [c]) (map_of d k) else map_of d k')"
  by (induction d k c rule: append_to.induct) auto

lemma keys_add_entry:
  "keys (add_entry d k c) = (if k \<in> set (keys d) then keys d else keys d @ [k])"
  by (simp add: add_entry_def keys_append_to) (simp add: keys_def)

lemma map_of_None_keys: "map_of d k = None \<longleftrightarrow> k \<notin> set (keys d)"
  by (simp add: keys_def map_of_eq_None_iff)

lemma lookup_add_entry:
  "lookup (add_entry d k c) k' = (if k' = k then lookup d k @ [c] else lookup d k')"
proof (cases "k \<in> set (keys d)")
  case True
  then obtain cs where "map_of d k = Some cs"
    using map_of_None_keys [of d k] by auto
  with True show ?thesis
    by (simp add: add_entry_def lookup_def map_of_append_to)
next
  case False
  then have "map_of d k = None" by (simp add: map_of_None_keys)
  with False show ?thesis
    by (simp add: add_entry_def lookup_def map_of_append_to map_add_def split: option.splits)
qed

text \<open>The inner loop adds one entry per token, in order.\<close>

lemma scan_subunits_fold:
  "scan_subunits d c us = fold (\<lambda>t d. add_entry d t c) (filter (\<lambda>t. t \<noteq> []) (map strip us)) d"
  by (induction us arbitrary: d) (simp_all add: Let_def)

lemma keys_fold_add:
  "set (keys (fold (\<lambda>t d. add_entry d t c) ts d)) = set (keys d) \<union> set ts"
  by (induction ts arbitrary: d) (auto simp: keys_add_entry)

lemma distinct_fold_add:
  "distinct (keys d) \<Longrightarrow> distinct (keys (fold (\<lambda>t d. add_entry d t c) ts d))"
  by (induction ts arbitrary: d) (auto simp: keys_add_entry)

lemma lookup_fold_add:
  "lookup (fold (\<lambda>t d. add_entry d t c) ts d) k =
     lookup d k @ map (\<lambda>u. c) (filter (\<lambda>u. u = k) ts)"
  by (induction ts arbitrary: d) (auto simp: lookup_add_entry)

lemma keys_scan_subunits:
  "set (keys (scan_subunits d c (split_on (CHR '';'') s))) = set (keys d) \<union> set (tokens s)"
  by (simp add: scan_subunits_fold keys_fold_add tokens_def)

lemma distinct_scan_subunits:
  "distinct (keys d) \<Longrightarrow> distinct (keys (scan_subunits d c us))"
  by (simp add: scan_subunits_fold distinct_fold_add)

lemma lookup_scan_subunits:
  "lookup (scan_subunits d c (split_on (CHR '';'') s)) k =
     lookup d k @ map (\<lambda>u. c) (filter (\<lambda>u. u = k) (tokens s))"
  by (simp add: scan_subunits_fold lookup_fold_add tokens_def)

lemma distinct_scan_lines:
  "scan_lines d ls = Inr d' \<Longrightarrow> distinct (keys d) \<Longrightarrow> distinct (keys d')"
  by (induction ls arbitrary: d) (auto split: sum.splits simp: distinct_scan_subunits)

text \<open>When every line unpacks, the scan completes, and each list is the encounters.\<close>

lemma scan_lines_records:
  "map unpack_line ls = map Inr rs \<Longrightarrow>
   \<exists>d'. scan_lines d ls = Inr d' \<and>
        set (keys d') = set (keys d) \<union> (\<Union>r\<in>set rs. set (tokens (snd r))) \<and>
        (\<forall>k. lookup d' k = lookup d k @ encounters rs k)"
proof (induction ls arbitrary: d rs)
  case Nil
  then show ?case by (simp add: encounters_def)
next
  case (Cons l ls)
  then obtain r rs' where rs: "rs = r # rs'" and l: "unpack_line l = Inr r"
    and rest: "map unpack_line ls = map Inr rs'"
    by (cases rs) auto
  obtain c s where r: "r = (c, s)" by (cases r)
  let ?d1 = "scan_subunits d c (split_on (CHR '';'') s)"
  from Cons.IH [OF rest, of ?d1] obtain d' where
    d': "scan_lines ?d1 ls = Inr d'"
    and k': "set (keys d') = set (keys ?d1) \<union> (\<Union>r\<in>set rs'. set (tokens (snd r)))"
    and l': "\<forall>k. lookup d' k = lookup ?d1 k @ encounters rs' k"
    by blast
  have "scan_lines d (l # ls) = Inr d'"
    using l r d' by simp
  moreover have "set (keys d') = set (keys d) \<union> (\<Union>r\<in>set rs. set (tokens (snd r)))"
    using k' by (auto simp: rs r keys_scan_subunits)
  moreover have "\<forall>k. lookup d' k = lookup d k @ encounters rs k"
    using l' by (simp add: rs r lookup_scan_subunits encounters_def)
  ultimately show ?case by blast
qed



lemma count_list_filter: "count_list xs x = length (filter (\<lambda>u. u = x) xs)"
  by (induction xs) auto

lemma count_list_const: "count_list (map (\<lambda>u. a) xs) c = (if a = c then length xs else 0)"
  by (induction xs) auto

lemma count_encounters: "count_list (encounters rs t) c = occurrences_in c rs t"
  by (induction rs)
     (simp_all add: encounters_def occurrences_in_def count_list_filter [of "tokens _"] count_list_const)

lemma length_encounters: "length (encounters rs t) = occurrences rs t"
  by (induction rs) (simp_all add: encounters_def occurrences_def count_list_filter)

lemma one_row_per_key:
  "distinct xs \<Longrightarrow> x \<in> set xs \<Longrightarrow> length (filter (\<lambda>y. y = x) xs) = 1"
  by (induction xs) (auto simp: filter_empty_conv)

lemma sound_index_iff:
  "sound_index ls d \<longleftrightarrow>
     (\<forall>(k, cs) \<in> set d. cs \<noteq> [] \<and> (\<forall>c \<in> set cs. \<exists>l \<in> set ls. justifies k c l))"
  by (auto simp: sound_index_def list_all_iff list_ex_iff)

lemma sound_index_mono: "sound_index ls d \<Longrightarrow> set ls \<subseteq> set ls' \<Longrightarrow> sound_index ls' d"
  unfolding sound_index_iff by blast

lemma set_append_to:
  "(k', cs') \<in> set (append_to d k c) \<Longrightarrow>
     (k', cs') \<in> set d \<or> (k' = k \<and> (\<exists>cs. cs' = cs @ [c] \<and> (k, cs) \<in> set d))"
  by (induction d k c rule: append_to.induct) (auto split: if_splits)

lemma append_to_new:
  "k \<notin> set (keys d) \<Longrightarrow> append_to (d @ [(k, cs)]) k c = d @ [(k, cs @ [c])]"
  by (induction d) (auto simp: keys_def)

lemma set_add_entry:
  "(k', cs') \<in> set (add_entry d k c) \<Longrightarrow>
     (k', cs') \<in> set d \<or> (k' = k \<and> (\<exists>cs. cs' = cs @ [c] \<and> ((k, cs) \<in> set d \<or> cs = [])))"
proof (cases "k \<in> set (keys d)")
  case True
  assume "(k', cs') \<in> set (add_entry d k c)"
  with True show ?thesis
    by (auto simp: add_entry_def dest!: set_append_to)
next
  case False
  assume "(k', cs') \<in> set (add_entry d k c)"
  with False show ?thesis
    by (auto simp: add_entry_def append_to_new)
qed

lemma sound_add_entry:
  assumes "sound_index ls d" and "l \<in> set ls" and "justifies k c l"
  shows "sound_index ls (add_entry d k c)"
  unfolding sound_index_iff
proof clarify
  fix k' cs'
  assume "(k', cs') \<in> set (add_entry d k c)"
  from set_add_entry [OF this] assms
  show "cs' \<noteq> [] \<and> (\<forall>c \<in> set cs'. \<exists>l \<in> set ls. justifies k' c l)"
    unfolding sound_index_iff by fastforce
qed

lemma sound_fold_add:
  "sound_index ls d \<Longrightarrow> l \<in> set ls \<Longrightarrow> (\<forall>t \<in> set ts. justifies t c l) \<Longrightarrow>
     sound_index ls (fold (\<lambda>t d. add_entry d t c) ts d)"
  by (induction ts arbitrary: d) (auto intro: sound_add_entry)

lemma split_prefix_tokens:
  "split_on (CHR '';'') s = us @ vs \<Longrightarrow>
     set (filter (\<lambda>t. t \<noteq> []) (map strip us)) \<subseteq> set (tokens s)"
  by (auto simp: tokens_def)

lemma sound_scan_subunits:
  assumes "sound_index ls d" and "l \<in> set ls" and "unpack_line l = Inr (c, s)"
    and "split_on (CHR '';'') s = us @ vs"
  shows "sound_index ls (scan_subunits d c us)"
  unfolding scan_subunits_fold
proof (rule sound_fold_add [OF assms(1,2)])
  show "\<forall>t \<in> set (filter (\<lambda>t. t \<noteq> []) (map strip us)). justifies t c l"
    using split_prefix_tokens [OF assms(4)] assms(3) by (auto simp: justifies_def)
qed

lemma sound_scan_lines:
  "sound_index ls0 d0 \<Longrightarrow> scan_lines d0 ls = Inr d \<Longrightarrow> sound_index (ls0 @ ls) d"
proof (induction ls arbitrary: d0 ls0)
  case Nil
  then show ?case by simp
next
  case (Cons l ls)
  from Cons.prems(2) obtain c s where l: "unpack_line l = Inr (c, s)"
    and rest: "scan_lines (scan_subunits d0 c (split_on (CHR '';'') s)) ls = Inr d"
    by (auto split: sum.splits)
  have "sound_index (ls0 @ [l]) d0"
    using Cons.prems(1) by (rule sound_index_mono) auto
  then have "sound_index (ls0 @ [l]) (scan_subunits d0 c (split_on (CHR '';'') s))"
    by (rule sound_scan_subunits [where vs = "[]" and l = l, OF _ _ l]) simp_all
  from Cons.IH [OF this rest] show ?case by simp
qed

lemma scan_lines_append:
  "scan_lines d0 pre = Inr d \<Longrightarrow> scan_lines d0 (pre @ rest) = scan_lines d rest"
  by (induction pre arbitrary: d0) (auto split: sum.splits)

lemma scan_subunits_append:
  "scan_subunits d c (us @ vs) = scan_subunits (scan_subunits d c us) c vs"
  by (simp add: scan_subunits_fold)

section \<open>The filter and the writer\<close>

lemma mask_is_filter: "map fst (filter snd (zip xs (map f xs))) = filter f xs"
  by (induction xs) auto

lemma eq_str_iff: "eq_str c t \<longleftrightarrow> c = Str t"
  by (cases c) auto

lemma cell_of_rows [simp]: "cell_of (df\<lparr>rows := rs\<rparr>) n r = cell_of df n r"
  by (simp add: cell_of_def)

lemma human_records_eq:
  assumes "set required_columns \<subseteq> set (columns df)"
  shows "human_records df =
           Inr \<lparr>columns = sma_columns, rows = map (record_of df) (filter (is_human df) (rows df))\<rparr>"
proof -
  have org: "getitem_column df ''organism'' = Inr (map (cell_of df ''organism'') (rows df))"
    using assms by (simp add: getitem_column_def required_columns_def)
  have pred: "(\<lambda>r. eq_str (cell_of df ''organism'' r) ''Human'') = is_human df"
    by (simp add: fun_eq_iff eq_str_iff is_human_def)
  have sel: "map fst (filter snd (zip (rows df)
               (map (\<lambda>c. eq_str c ''Human'') (map (cell_of df ''organism'') (rows df)))))
             = filter (is_human df) (rows df)"
    using mask_is_filter [of "rows df" "is_human df"]
    by (simp only: map_map comp_def pred)
  show ?thesis
    using assms sel
    by (simp add: human_records_def org getitem_columns_def getitem_mask_def
        required_columns_def sma_columns_def record_of_def)
qed

lemma csv_field_plain: "\<not> needs_quoting s \<Longrightarrow> csv_field s = s"
  by (simp add: csv_field_def)

lemma csv_header: "csv_row sma_columns =
    ''complex_id'' @ [TAB] @ ''complex_name'' @ [TAB] @ ''subunits_uniprot_id'' @ [LF]"
  by (simp add: csv_row_def sma_columns_def csv_field_def needs_quoting_def TAB_def DQUOTE_def LF_def CR_def)

lemma plain_field: "plain x \<Longrightarrow> csv_field (cell_text x) = cell_text x"
  by (rule csv_field_plain) (auto simp: plain_def needs_quoting_def list_all_iff list_ex_iff)

lemma plain_row: "list_all plain r \<Longrightarrow> map csv_field (map cell_text r) = map cell_text r"
  by (induction r) (simp_all add: plain_field)

section \<open>The run as a whole\<close>

lemma unpack_line_malformed:
  "length (split_on TAB (strip l)) \<noteq> 3 \<Longrightarrow>
     unpack_line l = Inl (unpack_error (length (split_on TAB (strip l))))"
  by (auto simp: unpack_line_def split: list.splits)

lemma unpack_line_wellformed:
  "length (split_on TAB (strip l)) = 3 \<Longrightarrow> \<exists>r. unpack_line l = Inr r"
  by (auto simp: unpack_line_def split: list.splits)

lemma scan_lines_malformed:
  "l \<in> set ls \<Longrightarrow> length (split_on TAB (strip l)) \<noteq> 3 \<Longrightarrow>
     \<exists>n. n \<noteq> 3 \<and> scan_lines d ls = Inl (unpack_error n)"
proof (induction ls arbitrary: d)
  case Nil
  then show ?case by simp
next
  case (Cons x xs)
  show ?case
  proof (cases "length (split_on TAB (strip x)) = 3")
    case True
    then obtain r where r: "unpack_line x = Inr r"
      using unpack_line_wellformed by blast
    from True Cons.prems have "l \<in> set xs" by auto
    from Cons.IH [OF this Cons.prems(2)] r show ?thesis
      by (cases r) simp
  next
    case False
    then show ?thesis
      using unpack_line_malformed [OF False] by auto
  qed
qed

lemma unpack_error_other: "\<exists>m. unpack_error n = OtherException m"
  by (simp add: unpack_error_def)

lemma mentions_middle: "mentions (a @ p @ b) p"
  unfolding mentions_def list_ex_iff
  by (rule bexI [where x = "length a"]) simp_all

lemma no_tokens_no_entries: "tokens s = [] \<Longrightarrow> scan_subunits d c (split_on (CHR '';'') s) = d"
  by (simp add: scan_subunits_fold tokens_def)

section \<open>Stripping and splitting\<close>

lemma strip_rstrip: "strip s = rstrip (dropWhile py_isspace s)"
  by (simp add: strip_def rstrip_def)

lemma rstrip_decomp: "\<exists>w. s = rstrip s @ w \<and> list_all py_isspace w"
proof -
  have "rev s = takeWhile py_isspace (rev s) @ dropWhile py_isspace (rev s)" by simp
  then have "s = rev (dropWhile py_isspace (rev s)) @ rev (takeWhile py_isspace (rev s))"
    by (metis rev_append rev_rev_ident)
  moreover have "list_all py_isspace (rev (takeWhile py_isspace (rev s)))"
    by (auto simp: list_all_iff dest: set_takeWhileD)
  ultimately show ?thesis unfolding rstrip_def by blast
qed

lemma set_rstrip: "set (rstrip s) \<subseteq> set s"
  by (auto simp: rstrip_def dest: set_dropWhileD)

lemma rstrip_append_space: "list_all py_isspace w \<Longrightarrow> rstrip (x @ w) = rstrip x"
proof -
  assume "list_all py_isspace w"
  then have "dropWhile py_isspace (rev w @ rev x) = dropWhile py_isspace (rev x)"
    by (intro dropWhile_append2) (simp add: list_all_iff)
  then show ?thesis by (simp add: rstrip_def)
qed

lemma rstrip_append_keep:
  "list_ex (\<lambda>ch. \<not> py_isspace ch) y \<Longrightarrow> rstrip (x @ y) = x @ rstrip y"
  by (auto simp: rstrip_def list_ex_iff dropWhile_append1)

lemma strip_append_space: "list_all py_isspace w \<Longrightarrow> strip (x @ w) = strip x"
proof (cases "list_all py_isspace x")
  case True
  assume "list_all py_isspace w"
  with True have a: "dropWhile py_isspace (x @ w) = []"
    unfolding dropWhile_eq_Nil_conv by (auto simp: list_all_iff)
  from True have b: "dropWhile py_isspace x = []"
    unfolding dropWhile_eq_Nil_conv by (auto simp: list_all_iff)
  show ?thesis by (simp only: strip_def a b)
next
  case False
  assume w: "list_all py_isspace w"
  from False obtain ch where "ch \<in> set x" "\<not> py_isspace ch" by (auto simp: list_all_iff)
  then have "dropWhile py_isspace (x @ w) = dropWhile py_isspace x @ w"
    by (simp add: dropWhile_append1)
  then show ?thesis using w by (simp add: strip_rstrip rstrip_append_space)
qed

lemma split_on_nonempty: "split_on sep s \<noteq> []"
  by (induction s) (auto split: list.splits)

lemma split_on_nosep: "sep \<notin> set s \<Longrightarrow> split_on sep s = [s]"
  by (induction s) auto

lemma split_on_field: "sep \<notin> set a \<Longrightarrow> split_on sep (a @ sep # rest) = a # split_on sep rest"
  by (induction a) auto

lemma split_on_append_nosep:
  "sep \<notin> set w \<Longrightarrow> split_on sep (u @ w) = butlast (split_on sep u) @ [last (split_on sep u) @ w]"
proof (induction u)
  case Nil
  then show ?case by (simp add: split_on_nosep)
next
  case (Cons c u)
  then show ?case
    using split_on_nonempty [of sep u]
    by (cases "split_on sep u") (auto split: list.splits)
qed

lemma semicolon_not_space: "\<not> py_isspace (CHR '';'')"
  by (simp add: py_isspace_def)

lemma tokens_append_space: "list_all py_isspace w \<Longrightarrow> tokens (u @ w) = tokens u"
proof -
  assume w: "list_all py_isspace w"
  then have "CHR '';'' \<notin> set w"
    using semicolon_not_space by (auto simp: list_all_iff)
  then have sp: "split_on (CHR '';'') (u @ w)
      = butlast (split_on (CHR '';'') u) @ [last (split_on (CHR '';'') u) @ w]"
    by (rule split_on_append_nosep)
  have "map strip (split_on (CHR '';'') (u @ w))
      = map strip (butlast (split_on (CHR '';'') u) @ [last (split_on (CHR '';'') u)])"
    by (simp add: sp strip_append_space [OF w])
  also have "\<dots> = map strip (split_on (CHR '';'') u)"
    using split_on_nonempty [of "CHR '';''" u] by simp
  finally show ?thesis by (simp add: tokens_def)
qed

lemma tokens_rstrip: "tokens (rstrip s) = tokens s"
proof -
  obtain w where "s = rstrip s @ w" "list_all py_isspace w"
    using rstrip_decomp by blast
  then show ?thesis using tokens_append_space [of w "rstrip s"] by simp
qed

section \<open>Records that are read back as written\<close>

lemma chars_distinct:
  "TAB \<noteq> LF" "TAB \<noteq> CR" "TAB \<noteq> DQUOTE" "LF \<noteq> CR" "LF \<noteq> DQUOTE" "CR \<noteq> DQUOTE"
  "LF \<noteq> TAB" "CR \<noteq> TAB" "DQUOTE \<noteq> TAB" "CR \<noteq> LF" "DQUOTE \<noteq> LF" "DQUOTE \<noteq> CR"
  by (simp_all add: TAB_def LF_def CR_def DQUOTE_def)

lemma csv_field_chars: "set (csv_field s) \<subseteq> set s \<union> {DQUOTE}"
  by (auto simp: csv_field_def split: if_splits)

lemma universal_newlines_id: "CR \<notin> set s \<Longrightarrow> universal_newlines s = s"
  by (induction s rule: universal_newlines.induct) auto

lemma file_lines_line: "LF \<notin> set b \<Longrightarrow> file_lines (b @ LF # rest) = (b @ [LF]) # file_lines rest"
  by (induction b) auto

lemma file_lines_concat:
  "(\<forall>b \<in> set bs. LF \<notin> set b) \<Longrightarrow> file_lines (concat (map (\<lambda>b. b @ [LF]) bs)) = map (\<lambda>b. b @ [LF]) bs"
  by (induction bs) (simp_all add: file_lines_line)

lemma lines_of_text:
  assumes "\<forall>b \<in> set bs. LF \<notin> set b \<and> CR \<notin> set b"
  shows "file_lines (universal_newlines (concat (map (\<lambda>b. b @ [LF]) bs))) = map (\<lambda>b. b @ [LF]) bs"
proof -
  have "CR \<notin> set (concat (map (\<lambda>b. b @ [LF]) bs))"
    using assms chars_distinct by auto
  then show ?thesis
    using assms by (simp add: universal_newlines_id file_lines_concat)
qed

lemma plainD:
  "plain x \<Longrightarrow> TAB \<notin> set (cell_text x) \<and> DQUOTE \<notin> set (cell_text x)
     \<and> LF \<notin> set (cell_text x) \<and> CR \<notin> set (cell_text x)"
  by (auto simp: plain_def list_all_iff)

lemma clean_recordD:
  assumes "clean_record [a, b, c]"
  shows "plain a" and "\<exists>ch rest. cell_text a = ch # rest \<and> \<not> py_isspace ch"
    and "TAB \<notin> set (cell_text b) \<and> LF \<notin> set (cell_text b) \<and> CR \<notin> set (cell_text b)"
    and "plain c" and "list_ex (\<lambda>ch. \<not> py_isspace ch) (cell_text c)"
proof -
  from assms show "plain a" by simp
  from assms show "\<exists>ch rest. cell_text a = ch # rest \<and> \<not> py_isspace ch"
    by (cases "cell_text a") simp_all
  from assms have "list_all (\<lambda>ch. ch \<noteq> TAB \<and> ch \<noteq> LF \<and> ch \<noteq> CR) (cell_text b)" by simp
  then show "TAB \<notin> set (cell_text b) \<and> LF \<notin> set (cell_text b) \<and> CR \<notin> set (cell_text b)"
    by (auto simp: list_all_iff)
  from assms show "plain c" by simp
  from assms show "list_ex (\<lambda>ch. \<not> py_isspace ch) (cell_text c)" by simp
qed

text \<open>The line of a clean record.\<close>

lemma clean_line:
  assumes "clean_record [a, b, c]"
  shows "csv_row (map cell_text [a, b, c])
           = (cell_text a @ [TAB] @ csv_field (cell_text b) @ [TAB] @ cell_text c) @ [LF]"
  using clean_recordD(1,4) [OF assms] by (simp add: csv_row_def plain_field)

lemma clean_body_no_break:
  assumes "clean_record [a, b, c]"
  shows "LF \<notin> set (cell_text a @ [TAB] @ csv_field (cell_text b) @ [TAB] @ cell_text c)
       \<and> CR \<notin> set (cell_text a @ [TAB] @ csv_field (cell_text b) @ [TAB] @ cell_text c)"
proof -
  have b: "LF \<notin> set (csv_field (cell_text b))" "CR \<notin> set (csv_field (cell_text b))"
    using csv_field_chars [of "cell_text b"] clean_recordD(3) [OF assms] chars_distinct by auto
  show ?thesis
    using b plainD [OF clean_recordD(1) [OF assms]] plainD [OF clean_recordD(4) [OF assms]]
      chars_distinct
    by simp
qed

lemma tab_is_space: "py_isspace TAB" and lf_is_space: "py_isspace LF"
  by (simp_all add: py_isspace_def TAB_def LF_def)

lemma unpack_clean:
  assumes "clean_record [a, b, c]"
  shows "unpack_line (csv_row (map cell_text [a, b, c])) = Inr (cell_text a, rstrip (cell_text c))"
proof -
  let ?a = "cell_text a" and ?b = "csv_field (cell_text b)" and ?c = "cell_text c"
  from clean_recordD(2) [OF assms] obtain ch rest where a: "?a = ch # rest" and ch: "\<not> py_isspace ch"
    by blast
  have c: "list_ex (\<lambda>ch. \<not> py_isspace ch) ?c" by (rule clean_recordD(5) [OF assms])
  have ta: "TAB \<notin> set ?a" using plainD [OF clean_recordD(1) [OF assms]] by simp
  have tc: "TAB \<notin> set ?c" using plainD [OF clean_recordD(4) [OF assms]] by simp
  have tb: "TAB \<notin> set ?b"
    using csv_field_chars [of "cell_text b"] clean_recordD(3) [OF assms] chars_distinct by auto
  have line: "csv_row (map cell_text [a, b, c]) = ch # rest @ [TAB] @ ?b @ [TAB] @ ?c @ [LF]"
    using clean_line [OF assms] a by simp
  have "dropWhile py_isspace (csv_row (map cell_text [a, b, c])) = csv_row (map cell_text [a, b, c])"
    unfolding line using ch by simp
  then have "strip (csv_row (map cell_text [a, b, c])) = rstrip (csv_row (map cell_text [a, b, c]))"
    by (simp only: strip_rstrip)
  also have "\<dots> = rstrip (((?a @ [TAB] @ ?b @ [TAB]) @ ?c) @ [LF])"
    using clean_line [OF assms] by simp
  also have "\<dots> = rstrip ((?a @ [TAB] @ ?b @ [TAB]) @ ?c)"
    by (rule rstrip_append_space) (simp add: lf_is_space)
  also have "\<dots> = (?a @ [TAB] @ ?b @ [TAB]) @ rstrip ?c"
    by (rule rstrip_append_keep [OF c])
  finally have st: "strip (csv_row (map cell_text [a, b, c])) = ?a @ TAB # ?b @ TAB # rstrip ?c"
    by simp
  have "TAB \<notin> set (rstrip ?c)" using tc set_rstrip by blast
  then have "split_on TAB (?a @ TAB # ?b @ TAB # rstrip ?c) = [?a, ?b, rstrip ?c]"
    using ta tb by (simp add: split_on_field split_on_nosep)
  then show ?thesis by (simp only: unpack_line_def st list.case)
qed

lemma clean_record_shape: "clean_record r \<Longrightarrow> \<exists>a b c. r = [a, b, c]"
  by (cases r rule: clean_record.cases) simp_all

lemma csv_row_body: "csv_row t = join [TAB] (map csv_field t) @ [LF]"
  by (simp add: csv_row_def)

lemma header_body_no_break:
  "LF \<notin> set (join [TAB] (map csv_field sma_columns)) \<and> CR \<notin> set (join [TAB] (map csv_field sma_columns))"
  by (simp add: sma_columns_def csv_field_def needs_quoting_def TAB_def DQUOTE_def LF_def CR_def)

lemma clean_body:
  assumes "clean_record r"
  shows "LF \<notin> set (join [TAB] (map csv_field (map cell_text r)))
       \<and> CR \<notin> set (join [TAB] (map csv_field (map cell_text r)))"
proof -
  from clean_record_shape [OF assms] obtain a b c where r: "r = [a, b, c]" by blast
  have "join [TAB] (map csv_field (map cell_text r)) @ [LF]
          = (cell_text a @ [TAB] @ csv_field (cell_text b) @ [TAB] @ cell_text c) @ [LF]"
    using clean_line [of a b c] assms by (simp only: r csv_row_body)
  then have "join [TAB] (map csv_field (map cell_text r))
          = cell_text a @ [TAB] @ csv_field (cell_text b) @ [TAB] @ cell_text c"
    by (simp only: append_same_eq)
  then show ?thesis
    using clean_body_no_break [of a b c] assms r by simp
qed

lemma lines_of_clean_frame:
  assumes "list_all clean_record recs"
  shows "file_lines (universal_newlines (to_csv \<lparr>columns = sma_columns, rows = recs\<rparr>))
           = csv_row sma_columns # map (\<lambda>r. csv_row (map cell_text r)) recs"
proof -
  let ?bodies = "map (\<lambda>t. join [TAB] (map csv_field t)) (sma_columns # map (map cell_text) recs)"
  have csv: "to_csv \<lparr>columns = sma_columns, rows = recs\<rparr> = concat (map (\<lambda>b. b @ [LF]) ?bodies)"
    by (simp add: to_csv_def csv_row_body comp_def)
  have "\<forall>b \<in> set ?bodies. LF \<notin> set b \<and> CR \<notin> set b"
    using assms header_body_no_break clean_body by (auto simp: list_all_iff)
  from lines_of_text [OF this] show ?thesis
    by (simp add: csv csv_row_body comp_def)
qed

lemma unpack_clean_lines:
  assumes "list_all clean_record recs"
  shows "map unpack_line (map (\<lambda>r. csv_row (map cell_text r)) recs)
           = map Inr (map (\<lambda>r. (cell_text (r ! 0), rstrip (cell_text (r ! 2)))) recs)"
  using assms
proof (induction recs)
  case Nil
  then show ?case by simp
next
  case (Cons r recs)
  then have "clean_record r" by simp
  from clean_record_shape [OF this] obtain a b c where r: "r = [a, b, c]" by blast
  have "unpack_line (csv_row (map cell_text r)) = Inr (cell_text (r ! 0), rstrip (cell_text (r ! 2)))"
    using unpack_clean [of a b c] \<open>clean_record r\<close> by (simp add: r)
  then show ?case using Cons by simp
qed

lemma encounters_rstrip:
  "encounters (map (\<lambda>r. (fst r, rstrip (snd r))) rs) k = encounters rs k"
  by (simp add: encounters_def comp_def tokens_rstrip)

lemma sort_keys_unique:
  assumes "distinct ks" and "set ks = set ts"
  shows "sort ks = sort (remdups ts)"
  by (rule sorted_distinct_set_unique) (simp_all add: assms)

lemma complexes_text_of_index:
  assumes "distinct (keys d)"
    and "set (keys d) = (\<Union>r\<in>set rs. set (tokens (snd r)))"
    and "\<forall>k. lookup d k = encounters rs k"
  shows "complexes_text d =
           (''subunits_uniprot_id'' @ [TAB] @ ''complex_ids'' @ [LF])
           @ concat (map (\<lambda>k. k @ [TAB] @ join ''|'' (encounters rs k) @ [LF])
                       (sort (remdups (concat (map (\<lambda>r. tokens (snd r)) rs)))))"
proof -
  have "sort (keys d) = sort (remdups (concat (map (\<lambda>r. tokens (snd r)) rs)))"
    by (rule sort_keys_unique [OF assms(1)]) (simp add: assms(2))
  then show ?thesis
    using assms(3) by (simp add: complexes_text_def final_rows_def row_text_def comp_def)
qed

section \<open>Where a run ends\<close>

lemma written_field: "csv_field (cell_text x) = written x"
  by (auto simp: written_def csv_field_def quoted_def plain_def needs_quoting_def
        list_all_iff list_ex_iff)

lemma run_missing_input:
  assumes "fs input_file = None"
  shows "process_corum_data parser open_w fs input_file output_sma_file output_complexes_file
           = (fs, [''Error: Input file '' @ [SQUOTE] @ input_file @ [SQUOTE] @ '' not found.''])"
  using assms by (simp add: process_corum_data_def try_body_def read_csv_def)

lemma run_parse_failure:
  assumes "fs input_file = Some text" and "parser text = Inl (ParserError m)"
  shows "process_corum_data parser open_w fs input_file output_sma_file output_complexes_file
           = (fs, [''Error: Could not parse input file '' @ [SQUOTE] @ input_file @ [SQUOTE]
                    @ ''. Check file format.''])"
  using assms by (simp add: process_corum_data_def try_body_def read_csv_def)

lemma run_stops_at_malformed_row:
  assumes "read_csv parser fs input_file = Inr df" and "human_records df = Inr sma_df"
    and "open_w output_sma_file = None"
    and "file_lines (universal_newlines (to_csv sma_df)) = header # data"
    and "l \<in> set data" and "length (split_on TAB (strip l)) \<noteq> 3"
  shows "\<exists>n. n \<noteq> 3 \<and>
           process_corum_data parser open_w fs input_file output_sma_file output_complexes_file =
             (fs(output_sma_file \<mapsto> to_csv sma_df),
              [''An unexpected error occurred: '' @ str_exn (unpack_error n)])"
proof -
  from scan_lines_malformed [OF assms(5,6), of "[]"] obtain n where
    n: "n \<noteq> 3" and s: "scan_lines [] data = Inl (unpack_error n)" by blast
  obtain m where m: "unpack_error n = OtherException m"
    using unpack_error_other by blast
  have "read_index (fs(output_sma_file \<mapsto> to_csv sma_df)) output_sma_file = Inl (unpack_error n)"
    using assms(4) s by (simp add: read_index_def build_index_def)
  then have "process_corum_data parser open_w fs input_file output_sma_file output_complexes_file =
             (fs(output_sma_file \<mapsto> to_csv sma_df),
              [''An unexpected error occurred: '' @ str_exn (unpack_error n)])"
    using assms(1-3) m by (simp add: process_corum_data_def try_body_def)
  with n show ?thesis by blast
qed

lemma run_sma_unwritable:
  assumes "read_csv parser fs input_file = Inr df" and "human_records df = Inr sma_df"
    and "open_w output_sma_file = Some e"
  shows "process_corum_data parser open_w fs input_file output_sma_file output_complexes_file
           = (fs, [diagnostic input_file e])"
  using assms by (simp add: process_corum_data_def try_body_def)

lemma run_complexes_unwritable:
  assumes "read_csv parser fs input_file = Inr df" and "human_records df = Inr sma_df"
    and "open_w output_sma_file = None"
    and "build_index (to_csv sma_df) = Inr d"
    and "open_w output_complexes_file = Some e"
  shows "process_corum_data parser open_w fs input_file output_sma_file output_complexes_file
           = (fs(output_sma_file \<mapsto> to_csv sma_df), [diagnostic input_file e])"
  using assms by (simp add: process_corum_data_def try_body_def read_index_def)

text \<open>On a frame whose retained records are clean the run completes.\<close>

lemma run_on_clean_frame:
  assumes rd: "read_csv parser fs input_file = Inr df"
    and cols: "set required_columns \<subseteq> set (columns df)"
    and w1: "open_w output_sma_file = None" and w2: "open_w output_complexes_file = None"
    and clean: "list_all clean_record (map (record_of df) (filter (is_human df) (rows df)))"
  shows "process_corum_data parser open_w fs input_file output_sma_file output_complexes_file
           = (fs(output_sma_file \<mapsto>
                   to_csv \<lparr>columns = sma_columns,
                             rows = map (record_of df) (filter (is_human df) (rows df))\<rparr>,
                 output_complexes_file \<mapsto>
                   (''subunits_uniprot_id'' @ [TAB] @ ''complex_ids'' @ [LF])
                   @ concat (map (\<lambda>k. k @ [TAB] @ join ''|'' (encounters (retained df) k) @ [LF])
                               (sort (remdups (concat (map (\<lambda>r. tokens (snd r)) (retained df))))))),
              [])"
proof -
  let ?recs = "map (record_of df) (filter (is_human df) (rows df))"
  let ?sma = "\<lparr>columns = sma_columns, rows = ?recs\<rparr>"
  let ?data = "map (\<lambda>r. csv_row (map cell_text r)) ?recs"
  let ?rs' = "map (\<lambda>r. (fst r, rstrip (snd r))) (retained df)"
  have hr: "human_records df = Inr ?sma" by (rule human_records_eq [OF cols])
  have lines: "file_lines (universal_newlines (to_csv ?sma)) = csv_row sma_columns # ?data"
    by (rule lines_of_clean_frame [OF clean])
  have "map (\<lambda>r. (cell_text (r ! 0), rstrip (cell_text (r ! 2)))) ?recs = ?rs'"
    by (simp add: retained_def record_of_def comp_def)
  then have unp: "map unpack_line ?data = map Inr ?rs'"
    using unpack_clean_lines [OF clean] by simp
  from scan_lines_records [OF unp, of "[]"] obtain d where
    d: "scan_lines [] ?data = Inr d"
    and k: "set (keys d) = set (keys []) \<union> (\<Union>r\<in>set ?rs'. set (tokens (snd r)))"
    and l: "\<forall>k. lookup d k = lookup [] k @ encounters ?rs' k"
    by blast
  have dist: "distinct (keys d)"
    using distinct_scan_lines [OF d] by (simp add: keys_def)
  have k': "set (keys d) = (\<Union>r\<in>set (retained df). set (tokens (snd r)))"
    using k by (simp add: keys_def tokens_rstrip)
  have l': "\<forall>k. lookup d k = encounters (retained df) k"
    using l by (simp add: lookup_def encounters_rstrip)
  have idx: "read_index (fs(output_sma_file \<mapsto> to_csv ?sma)) output_sma_file = Inr d"
    using lines d by (simp add: read_index_def build_index_def)
  show ?thesis
    using rd hr w1 w2 idx complexes_text_of_index [OF dist k' l']
    by (simp add: process_corum_data_def try_body_def)
qed

section \<open>Filter correctness (C2)\<close>



section \<open>Schema projection (C9)\<close>



section \<open>What the writer does to a field (C6)\<close>

text \<open>
  C6, as stated, says that no field is quoted or re-encoded even when it holds a
  delimiter. \<open>to_csv\<close> is called without a \<open>quoting\<close> argument, so a complex_name with
  a tab in it is written between double quotes, and a double quote in a field is
  doubled.
\<close>

theorem quoting_counterexample:
  "human_records quoted_example =
     Inr \<lparr>columns = sma_columns, rows = [[Str ''C1'', Str (''Fo'' @ [TAB] @ ''o''), Str ''P1'']]\<rparr>
   \<and> to_csv \<lparr>columns = sma_columns, rows = [[Str ''C1'', Str (''Fo'' @ [TAB] @ ''o''), Str ''P1'']]\<rparr> =
       (''complex_id'' @ [TAB] @ ''complex_name'' @ [TAB] @ ''subunits_uniprot_id'' @ [LF])
       @ (''C1'' @ [TAB] @ [DQUOTE] @ ''Fo'' @ [TAB] @ ''o'' @ [DQUOTE] @ [TAB] @ ''P1'' @ [LF])
   \<and> csv_field (''Fo'' @ [TAB] @ ''o'') \<noteq> ''Fo'' @ [TAB] @ ''o''
   \<and> csv_field (''5'' @ [DQUOTE] @ '' nail'') = [DQUOTE] @ ''5'' @ [DQUOTE, DQUOTE] @ '' nail'' @ [DQUOTE]"
  by code_simp

text \<open>
  C6, amended. The writer drops no row and changes no value: the file is the header
  and, for each FilteredRecord in order, its three fields joined by tabs. A field that
  holds no tab, double quote, line feed or carriage return is written byte for byte (a
  string as it is, a missing value as the empty string); a field that holds one of them
  is written between double quotes, with every double quote in it doubled.
\<close>

theorem fields_written:
  assumes "columns df = sma_columns"
  shows "to_csv df =
           (''complex_id'' @ [TAB] @ ''complex_name'' @ [TAB] @ ''subunits_uniprot_id'' @ [LF])
           @ concat (map (\<lambda>r. join [TAB] (map written r) @ [LF]) (rows df))
       \<and> (list_all (list_all plain) (rows df) \<longrightarrow>
            to_csv df =
              (''complex_id'' @ [TAB] @ ''complex_name'' @ [TAB] @ ''subunits_uniprot_id'' @ [LF])
              @ concat (map (\<lambda>r. join [TAB] (map cell_text r) @ [LF]) (rows df)))"
proof -
  have w: "to_csv df = csv_row sma_columns
             @ concat (map (\<lambda>r. join [TAB] (map written r) @ [LF]) (rows df))"
    by (simp add: to_csv_def assms csv_row_def comp_def written_field)
  have p: "to_csv df = csv_row sma_columns
             @ concat (map (\<lambda>r. join [TAB] (map cell_text r) @ [LF]) (rows df))"
    if "list_all (list_all plain) (rows df)"
  proof -
    have "map (\<lambda>r. join [TAB] (map written r) @ [LF]) (rows df)
          = map (\<lambda>r. join [TAB] (map cell_text r) @ [LF]) (rows df)"
    proof (rule map_cong [OF refl])
      fix r assume "r \<in> set (rows df)"
      with that have "list_all plain r" by (simp add: list_all_iff)
      then have eq: "map written r = map cell_text r"
        by (induction r) (simp_all add: written_def)
      show "join [TAB] (map written r) @ [LF] = join [TAB] (map cell_text r) @ [LF]"
        by (simp only: eq)
    qed
    then show ?thesis by (simp only: w)
  qed
  show ?thesis
  proof (intro conjI impI)
    show "to_csv df =
           (''complex_id'' @ [TAB] @ ''complex_name'' @ [TAB] @ ''subunits_uniprot_id'' @ [LF])
           @ concat (map (\<lambda>r. join [TAB] (map written r) @ [LF]) (rows df))"
      using w by (simp only: csv_header)
    assume "list_all (list_all plain) (rows df)"
    from p [OF this]
    show "to_csv df =
              (''complex_id'' @ [TAB] @ ''complex_name'' @ [TAB] @ ''subunits_uniprot_id'' @ [LF])
              @ concat (map (\<lambda>r. join [TAB] (map cell_text r) @ [LF]) (rows df))"
      by (simp only: csv_header)
  qed
qed

theorem fields_written_witness:
  "columns \<lparr>columns = sma_columns,
            rows = [[Num 7, Str ''Foo'', Str ''P2;P1; P2''],
                    [Str ''C1'', Str (''Fo'' @ [TAB] @ ''o''), Str (''5'' @ [DQUOTE] @ '' nail'')]]\<rparr>
     = sma_columns
   \<and> to_csv \<lparr>columns = sma_columns,
            rows = [[Num 7, Str ''Foo'', Str ''P2;P1; P2''],
                    [Str ''C1'', Str (''Fo'' @ [TAB] @ ''o''), Str (''5'' @ [DQUOTE] @ '' nail'')]]\<rparr>
     = (''complex_id'' @ [TAB] @ ''complex_name'' @ [TAB] @ ''subunits_uniprot_id'' @ [LF])
       @ (''7'' @ [TAB] @ ''Foo'' @ [TAB] @ ''P2;P1; P2'' @ [LF])
       @ (''C1'' @ [TAB] @ [DQUOTE] @ ''Fo'' @ [TAB] @ ''o'' @ [DQUOTE] @ [TAB]
            @ [DQUOTE] @ ''5'' @ [DQUOTE, DQUOTE] @ '' nail'' @ [DQUOTE] @ [LF])
   \<and> list_all (list_all plain) [[Num 7, Str ''Foo'', Str ''P2;P1; P2''], [Num 9, Str ''Bar'', NaN]]
   \<and> to_csv \<lparr>columns = sma_columns, rows = [[Num 7, Str ''Foo'', Str ''P2;P1; P2''], [Num 9, Str ''Bar'', NaN]]\<rparr>
     = (''complex_id'' @ [TAB] @ ''complex_name'' @ [TAB] @ ''subunits_uniprot_id'' @ [LF])
       @ (''7'' @ [TAB] @ ''Foo'' @ [TAB] @ ''P2;P1; P2'' @ [LF])
       @ (''9'' @ [TAB] @ ''Bar'' @ [TAB] @ [LF])"
proof -
  let ?mixed = "\<lparr>columns = sma_columns,
            rows = [[Num 7, Str ''Foo'', Str ''P2;P1; P2''],
                    [Str ''C1'', Str (''Fo'' @ [TAB] @ ''o''), Str (''5'' @ [DQUOTE] @ '' nail'')]]\<rparr>"
  let ?plain = "\<lparr>columns = sma_columns, rows = [[Num 7, Str ''Foo'', Str ''P2;P1; P2''], [Num 9, Str ''Bar'', NaN]]\<rparr>"
  have h1: "columns ?mixed = sma_columns" by simp
  have h2: "columns ?plain = sma_columns" by simp
  have h3: "list_all (list_all plain) (rows ?plain)" by code_simp
  have ev1: "concat (map (\<lambda>r. join [TAB] (map written r) @ [LF]) (rows ?mixed))
       = (''7'' @ [TAB] @ ''Foo'' @ [TAB] @ ''P2;P1; P2'' @ [LF])
       @ (''C1'' @ [TAB] @ [DQUOTE] @ ''Fo'' @ [TAB] @ ''o'' @ [DQUOTE] @ [TAB]
            @ [DQUOTE] @ ''5'' @ [DQUOTE, DQUOTE] @ '' nail'' @ [DQUOTE] @ [LF])"
    by code_simp
  have ev2: "concat (map (\<lambda>r. join [TAB] (map cell_text r) @ [LF]) (rows ?plain))
       = (''7'' @ [TAB] @ ''Foo'' @ [TAB] @ ''P2;P1; P2'' @ [LF]) @ (''9'' @ [TAB] @ ''Bar'' @ [TAB] @ [LF])"
    by code_simp
  have a: "to_csv ?mixed =
      (''complex_id'' @ [TAB] @ ''complex_name'' @ [TAB] @ ''subunits_uniprot_id'' @ [LF])
      @ concat (map (\<lambda>r. join [TAB] (map written r) @ [LF]) (rows ?mixed))"
    by (rule fields_written [OF h1, THEN conjunct1])
  have b: "to_csv ?plain =
      (''complex_id'' @ [TAB] @ ''complex_name'' @ [TAB] @ ''subunits_uniprot_id'' @ [LF])
      @ concat (map (\<lambda>r. join [TAB] (map cell_text r) @ [LF]) (rows ?plain))"
    by (rule fields_written [OF h2, THEN conjunct2, THEN mp, OF h3])
  show ?thesis
    using h3 a b unfolding ev1 ev2 by simp
qed

section \<open>Sort order of the final output (C3)\<close>



section \<open>Inversion completeness (C1)\<close>

text \<open>
  C1, as stated, asks that the list of a token holds the complex_id of a row as many
  times as the token occurs in all retained rows. That fails as soon as a protein
  belongs to two complexes: the token \<open>P1\<close> occurs twice, and its list \<open>A|B\<close> holds
  \<open>A\<close> once. It also asks for the complex_id and the tokens of the row itself: the row
  with the complex_id \<open> C1\<close>, written with a leading blank, is listed as \<open>C1\<close>, since
  line 39 strips the line; and the row whose subunits field holds a double quote is
  written quoted, so that no row of the final file is keyed by its token \<open>P1\<close>.
\<close>

theorem inversion_count_counterexample:
  "map unpack_line shared_lines = map Inr [(''A'', ''P1''), (''B'', ''P1'')]
   \<and> scan_lines [] shared_lines = Inr [(''P1'', [''A'', ''B''])]
   \<and> final_rows [(''P1'', [''A'', ''B''])] = [(''P1'', [''A'', ''B''])]
   \<and> count_list [''A'', ''B''] ''A'' = 1
   \<and> occurrences [(''A'', ''P1''), (''B'', ''P1'')] ''P1'' = 2
   \<and> retained shared_example = [(''A'', ''P1''), (''B'', ''P1'')]
   \<and> fst (process_corum_data (parses_to shared_example) writable only_input
             ''in.txt'' ''sma.txt'' ''out.txt'') ''out.txt''
       = Some (complexes_header @ (''P1'' @ [TAB] @ ''A|B'' @ [LF]))
   \<and> retained padded_example = [('' C1'', ''P1'')]
   \<and> fst (process_corum_data (parses_to padded_example) writable only_input
             ''in.txt'' ''sma.txt'' ''out.txt'') ''out.txt''
       = Some (complexes_header @ (''P1'' @ [TAB] @ ''C1'' @ [LF]))
   \<and> retained quote_token_example = [(''C1'', ''P1;Q'' @ [DQUOTE] @ ''2'')]
   \<and> tokens (''P1;Q'' @ [DQUOTE] @ ''2'') = [''P1'', ''Q'' @ [DQUOTE] @ ''2'']
   \<and> fst (process_corum_data (parses_to quote_token_example) writable only_input
             ''in.txt'' ''sma.txt'' ''out.txt'') ''out.txt''
       = Some (complexes_header
               @ ([DQUOTE] @ ''P1'' @ [TAB] @ ''C1'' @ [LF])
               @ (''Q'' @ [DQUOTE, DQUOTE] @ ''2'' @ [DQUOTE] @ [TAB] @ ''C1'' @ [LF]))"
  by code_simp

text \<open>
  C1, amended. Let the input have the four required columns, let both output files be
  writable, and let every retained row be clean: no tab, line feed or carriage return in
  its three fields, no double quote in its complex_id and subunits field, a complex_id
  that is not empty and does not begin with whitespace, a subunits field with a
  character that is not whitespace. Then the run completes, and for every non-empty
  trimmed token \<open>t\<close> of the subunits field of a retained row with complex_id \<open>c\<close>: the
  final output file is the header followed by one row per distinct token in ascending
  order, so exactly one row is keyed by \<open>t\<close>; that row is \<open>t\<close>, a tab, and the
  \<open>|\<close>-joined complex_ids of the occurrences of \<open>t\<close>, in the order of the scan (rows top
  to bottom, tokens left to right); so the list holds \<open>c\<close> as many times as \<open>t\<close> occurs
  in the retained rows whose complex_id is \<open>c\<close>, and it has as many entries as \<open>t\<close> has
  occurrences in all retained rows.
\<close>

theorem inversion_complete:
  assumes "read_csv parser fs input_file = Inr df"
    and "set required_columns \<subseteq> set (columns df)"
    and "open_w output_sma_file = None" and "open_w output_complexes_file = None"
    and "list_all clean_record (map (record_of df) (filter (is_human df) (rows df)))"
    and "(c, s) \<in> set (retained df)" and "t \<in> set (tokens s)"
  shows "snd (process_corum_data parser open_w fs input_file output_sma_file output_complexes_file) = []
       \<and> fst (process_corum_data parser open_w fs input_file output_sma_file output_complexes_file)
             output_complexes_file
           = Some ((''subunits_uniprot_id'' @ [TAB] @ ''complex_ids'' @ [LF])
                   @ concat (map (\<lambda>k. k @ [TAB] @ join ''|'' (encounters (retained df) k) @ [LF])
                               (sort (remdups (concat (map (\<lambda>r. tokens (snd r)) (retained df)))))))
       \<and> length (filter (\<lambda>k. k = t)
                   (sort (remdups (concat (map (\<lambda>r. tokens (snd r)) (retained df)))))) = 1
       \<and> count_list (encounters (retained df) t) c = occurrences_in c (retained df) t
       \<and> length (encounters (retained df) t) = occurrences (retained df) t"
proof -
  have "t \<in> set (sort (remdups (concat (map (\<lambda>r. tokens (snd r)) (retained df)))))"
    using assms(6,7) by force
  then have "length (filter (\<lambda>k. k = t)
                   (sort (remdups (concat (map (\<lambda>r. tokens (snd r)) (retained df)))))) = 1"
    by (intro one_row_per_key) simp_all
  then show ?thesis
    using run_on_clean_frame [OF assms(1-5)] count_encounters length_encounters by simp
qed

theorem inversion_complete_witness:
  "read_csv (parses_to corum_example) only_input ''in.txt'' = Inr corum_example
   \<and> set required_columns \<subseteq> set (columns corum_example)
   \<and> writable ''sma.txt'' = None \<and> writable ''out.txt'' = None
   \<and> list_all clean_record (map (record_of corum_example) (filter (is_human corum_example) (rows corum_example)))
   \<and> (''7'', ''P2;P1; P2'') \<in> set (retained corum_example)
   \<and> ''P2'' \<in> set (tokens ''P2;P1; P2'')
   \<and> snd (process_corum_data (parses_to corum_example) writable only_input ''in.txt'' ''sma.txt'' ''out.txt'') = []
   \<and> fst (process_corum_data (parses_to corum_example) writable only_input ''in.txt'' ''sma.txt'' ''out.txt'')
         ''out.txt''
       = Some ((''subunits_uniprot_id'' @ [TAB] @ ''complex_ids'' @ [LF])
               @ concat (map (\<lambda>k. k @ [TAB] @ join ''|'' (encounters (retained corum_example) k) @ [LF])
                           (sort (remdups (concat (map (\<lambda>r. tokens (snd r)) (retained corum_example)))))))
   \<and> length (filter (\<lambda>k. k = ''P2'')
               (sort (remdups (concat (map (\<lambda>r. tokens (snd r)) (retained corum_example)))))) = 1
   \<and> count_list (encounters (retained corum_example) ''P2'') ''7'' = occurrences_in ''7'' (retained corum_example) ''P2''
   \<and> length (encounters (retained corum_example) ''P2'') = occurrences (retained corum_example) ''P2''
   \<and> concat (map (\<lambda>k. k @ [TAB] @ join ''|'' (encounters (retained corum_example) k) @ [LF])
               (sort (remdups (concat (map (\<lambda>r. tokens (snd r)) (retained corum_example))))))
       = (''P1'' @ [TAB] @ ''7|9'' @ [LF]) @ (''P2'' @ [TAB] @ ''7|7'' @ [LF]) @ (''Q1'' @ [TAB] @ ''9'' @ [LF])"
proof -
  have h1: "read_csv (parses_to corum_example) only_input ''in.txt'' = Inr corum_example"
    by (simp add: read_csv_def parses_to_def only_input_def)
  have h2: "set required_columns \<subseteq> set (columns corum_example)" by code_simp
  have h3: "writable ''sma.txt'' = None" by (simp add: writable_def)
  have h4: "writable ''out.txt'' = None" by (simp add: writable_def)
  have h5: "list_all clean_record (map (record_of corum_example) (filter (is_human corum_example) (rows corum_example)))"
    by code_simp
  have h6: "(''7'', ''P2;P1; P2'') \<in> set (retained corum_example)" by code_simp
  have h7: "''P2'' \<in> set (tokens ''P2;P1; P2'')" by code_simp
  have ev: "concat (map (\<lambda>k. k @ [TAB] @ join ''|'' (encounters (retained corum_example) k) @ [LF])
               (sort (remdups (concat (map (\<lambda>r. tokens (snd r)) (retained corum_example))))))
       = (''P1'' @ [TAB] @ ''7|9'' @ [LF]) @ (''P2'' @ [TAB] @ ''7|7'' @ [LF]) @ (''Q1'' @ [TAB] @ ''9'' @ [LF])"
    by code_simp
  note T = inversion_complete [where open_w = writable and output_sma_file = "''sma.txt''"
      and output_complexes_file = "''out.txt''", OF h1 h2 h3 h4 h5 h6 h7]
  show ?thesis
    by (intro conjI h1 h2 h3 h4 h5 h6 h7 ev
          T [THEN conjunct1] T [THEN conjunct2, THEN conjunct1]
          T [THEN conjunct2, THEN conjunct2, THEN conjunct1]
          T [THEN conjunct2, THEN conjunct2, THEN conjunct2, THEN conjunct1]
          T [THEN conjunct2, THEN conjunct2, THEN conjunct2, THEN conjunct2])
qed

section \<open>Soundness of the index during the scan (C10)\<close>

text \<open>
  C10, as stated, asks that every complex_id in the index is the first tab-separated
  field of a data line. Line 39 strips the line before it splits it, so a complex_id
  written with a leading blank enters the index without it.
\<close>

theorem index_first_field_counterexample:
  "to_csv \<lparr>columns = sma_columns, rows = [[Str '' C1'', Str ''Foo'', Str ''P1'']]\<rparr>
     = sma_header @ padded_line
   \<and> scan_lines [] [padded_line] = Inr [(''P1'', [''C1''])]
   \<and> split_on TAB padded_line = ['' C1'', ''Foo'', ''P1'' @ [LF]]
   \<and> ''C1'' \<noteq> '' C1''"
  by code_simp

text \<open>
  C10, amended. At every point of the scan every key of the index has a non-empty list,
  and every complex_id in the list of a key is the first of the three tab-separated
  fields of some data line scanned so far, after that line is stripped of leading and
  trailing whitespace, whose third field has the key among its trimmed tokens. A point
  of the scan is: the data lines \<open>pre\<close> are done and left the index \<open>d\<close> (the final
  index, when \<open>pre\<close> is all of them); or, further on, of the candidate tokens
  \<open>us @ vs\<close> of the next line \<open>l\<close> the loop has handled \<open>us\<close>. The last conjunct says
  that the scan of \<open>pre @ l # post\<close> goes through that state.
\<close>

theorem index_sound_during_scan:
  assumes "scan_lines [] pre = Inr d"
  shows "sound_index pre d
       \<and> (\<forall>l c s us vs post.
             unpack_line l = Inr (c, s) \<and> split_on (CHR '';'') s = us @ vs \<longrightarrow>
               sound_index (pre @ [l]) (scan_subunits d c us)
               \<and> scan_lines [] (pre @ l # post) =
                   scan_lines (scan_subunits (scan_subunits d c us) c vs) post)"
proof -
  have empty: "sound_index [] []" by (simp add: sound_index_def)
  have s1: "sound_index pre d"
    using sound_scan_lines [OF empty assms] by simp
  have s2: "sound_index (pre @ [l]) (scan_subunits d c us)
            \<and> scan_lines [] (pre @ l # post) =
                scan_lines (scan_subunits (scan_subunits d c us) c vs) post"
    if l: "unpack_line l = Inr (c, s)" and sp: "split_on (CHR '';'') s = us @ vs"
    for l c s us vs post
  proof -
    have "sound_index (pre @ [l]) d"
      using s1 by (rule sound_index_mono) auto
    then have a: "sound_index (pre @ [l]) (scan_subunits d c us)"
      by (rule sound_scan_subunits [OF _ _ l sp]) simp
    have "scan_lines [] (pre @ l # post) = scan_lines d (l # post)"
      by (rule scan_lines_append [OF assms])
    also have "\<dots> = scan_lines (scan_subunits (scan_subunits d c us) c vs) post"
      using l sp by (simp add: scan_subunits_append [symmetric])
    finally show ?thesis using a by blast
  qed
  show ?thesis using s1 s2 by blast
qed

theorem index_sound_during_scan_witness:
  "scan_lines [] [hd example_lines] = Inr [(''P2'', [''7'', ''7'']), (''P1'', [''7''])]
   \<and> unpack_line (example_lines ! 1) = Inr (''9'', ''Q1;P1;'')
   \<and> split_on (CHR '';'') ''Q1;P1;'' = [''Q1''] @ [''P1'', []]
   \<and> sound_index [hd example_lines] [(''P2'', [''7'', ''7'']), (''P1'', [''7''])]
   \<and> sound_index ([hd example_lines] @ [example_lines ! 1])
        (scan_subunits [(''P2'', [''7'', ''7'']), (''P1'', [''7''])] ''9'' [''Q1''])
   \<and> scan_lines [] ([hd example_lines] @ (example_lines ! 1) # []) =
       scan_lines (scan_subunits (scan_subunits [(''P2'', [''7'', ''7'']), (''P1'', [''7''])] ''9'' [''Q1'']) ''9'' [''P1'', []]) []"
proof -
  have h1: "scan_lines [] [hd example_lines] = Inr [(''P2'', [''7'', ''7'']), (''P1'', [''7''])]"
    by code_simp
  have h2: "unpack_line (example_lines ! 1) = Inr (''9'', ''Q1;P1;'')" by code_simp
  have h3: "split_on (CHR '';'') ''Q1;P1;'' = [''Q1''] @ [''P1'', []]" by code_simp
  show ?thesis
    using h1 h2 h3 index_sound_during_scan [OF h1] by blast
qed

section \<open>A row without subunits (C4)\<close>

text \<open>
  C4. A retained row whose subunits field is empty should add nothing to the final
  output and leave the rest of the run alone. The code does that only while the field
  keeps a character that is not whitespace (\<open>no_tokens_no_entries\<close>). For an empty
  field the intermediate line ends in a tab, \<open>line.strip()\<close> removes that tab with
  the line break, two fields are left, the unpacking raises, and the run ends without a
  final file: the protein \<open>P1\<close> of the next row is lost.
\<close>

theorem empty_subunits_stops_run:
  "snd (process_corum_data (parses_to empty_subunits_example) writable only_input
          ''in.txt'' ''sma.txt'' ''out.txt'')
     = [''An unexpected error occurred: not enough values to unpack (expected 3, got 2)'']
   \<and> fst (process_corum_data (parses_to empty_subunits_example) writable only_input
          ''in.txt'' ''sma.txt'' ''out.txt'') ''sma.txt''
     = Some (sma_header @ (''C1'' @ [TAB] @ ''Foo'' @ [TAB] @ [LF])
                        @ (''C2'' @ [TAB] @ ''Bar'' @ [TAB] @ ''P1'' @ [LF]))
   \<and> fst (process_corum_data (parses_to empty_subunits_example) writable only_input
          ''in.txt'' ''sma.txt'' ''out.txt'') ''out.txt''
     = None"
  by code_simp

section \<open>Malformed rows (C5)\<close>

text \<open>
  C5, as stated, makes the run fail for every data line that does not split on tab into
  three fields. The line is stripped first. A row without complex_id whose complex_name
  holds a tab is written as a line with three tabs, four fields; stripped, it splits
  into three, and the run completes with \<open>"Fo\<close> as the complex_id of \<open>P1\<close>.
\<close>

theorem mis_split_counterexample:
  "snd (process_corum_data (parses_to leading_tab_example) writable only_input
          ''in.txt'' ''sma.txt'' ''out.txt'') = []
   \<and> fst (process_corum_data (parses_to leading_tab_example) writable only_input
          ''in.txt'' ''sma.txt'' ''out.txt'') ''sma.txt''
     = Some (sma_header @ ([TAB] @ [DQUOTE] @ ''Fo'' @ [TAB] @ ''o'' @ [DQUOTE] @ [TAB] @ ''P1'' @ [LF]))
   \<and> split_on TAB ([TAB] @ [DQUOTE] @ ''Fo'' @ [TAB] @ ''o'' @ [DQUOTE] @ [TAB] @ ''P1'' @ [LF])
     = [[], [DQUOTE] @ ''Fo'', ''o'' @ [DQUOTE], ''P1'' @ [LF]]
   \<and> fst (process_corum_data (parses_to leading_tab_example) writable only_input
          ''in.txt'' ''sma.txt'' ''out.txt'') ''out.txt''
     = Some (complexes_header @ (''P1'' @ [TAB] @ [DQUOTE] @ ''Fo'' @ [LF]))"
  by code_simp

text \<open>
  C5, amended. When a data line of the intermediate file does not split on tab into
  exactly three fields, and does not do so either once its leading and trailing
  whitespace is stripped, the run fails: it prints \<open>An unexpected error occurred: \<close>
  followed by the message of the unpacking error, processing stops, and no final file
  is written.
\<close>

theorem malformed_row_stops_run:
  assumes "read_csv parser fs input_file = Inr df" and "human_records df = Inr sma_df"
    and "open_w output_sma_file = None"
    and "file_lines (universal_newlines (to_csv sma_df)) = header # data"
    and "l \<in> set data"
    and "length (split_on TAB l) \<noteq> 3" and "length (split_on TAB (strip l)) \<noteq> 3"
  shows "\<exists>n. n \<noteq> 3 \<and>
           process_corum_data parser open_w fs input_file output_sma_file output_complexes_file =
             (fs(output_sma_file \<mapsto> to_csv sma_df),
              [''An unexpected error occurred: '' @ str_exn (unpack_error n)])"
  using run_stops_at_malformed_row [where open_w = open_w and output_sma_file = output_sma_file,
      OF assms(1-5) assms(7)] .

theorem malformed_row_stops_run_witness:
  "read_csv (parses_to quoted_example) only_input ''in.txt'' = Inr quoted_example
   \<and> human_records quoted_example = Inr quoted_sma
   \<and> writable ''sma.txt'' = None
   \<and> file_lines (universal_newlines (to_csv quoted_sma)) = sma_header # [quoted_line]
   \<and> quoted_line \<in> set [quoted_line]
   \<and> length (split_on TAB quoted_line) \<noteq> 3
   \<and> length (split_on TAB (strip quoted_line)) \<noteq> 3
   \<and> (\<exists>n. n \<noteq> 3 \<and>
         process_corum_data (parses_to quoted_example) writable only_input
            ''in.txt'' ''sma.txt'' ''out.txt'' =
           (only_input(''sma.txt'' \<mapsto> to_csv quoted_sma),
            [''An unexpected error occurred: '' @ str_exn (unpack_error n)]))
   \<and> snd (process_corum_data (parses_to quoted_example) writable only_input
            ''in.txt'' ''sma.txt'' ''out.txt'')
       = [''An unexpected error occurred: too many values to unpack (expected 3)'']
   \<and> fst (process_corum_data (parses_to quoted_example) writable only_input
            ''in.txt'' ''sma.txt'' ''out.txt'') ''out.txt'' = None"
proof -
  have h1: "read_csv (parses_to quoted_example) only_input ''in.txt'' = Inr quoted_example"
    by (simp add: read_csv_def parses_to_def only_input_def)
  have h2: "human_records quoted_example = Inr quoted_sma" by code_simp
  have h3: "writable ''sma.txt'' = None" by (simp add: writable_def)
  have h4: "file_lines (universal_newlines (to_csv quoted_sma)) = sma_header # [quoted_line]"
    by code_simp
  have h5: "quoted_line \<in> set [quoted_line]" by simp
  have h6: "length (split_on TAB quoted_line) \<noteq> 3" by code_simp
  have h7: "length (split_on TAB (strip quoted_line)) \<noteq> 3" by code_simp
  have e1: "snd (process_corum_data (parses_to quoted_example) writable only_input
            ''in.txt'' ''sma.txt'' ''out.txt'')
       = [''An unexpected error occurred: too many values to unpack (expected 3)'']"
    by code_simp
  have e2: "fst (process_corum_data (parses_to quoted_example) writable only_input
            ''in.txt'' ''sma.txt'' ''out.txt'') ''out.txt'' = None"
    by code_simp
  show ?thesis
    by (intro conjI h1 h2 h3 h4 h5 h6 h7 e1 e2
          malformed_row_stops_run [where open_w = writable and output_sma_file = "''sma.txt''"
            and output_complexes_file = "''out.txt''", OF h1 h2 h3 h4 h5 h6 h7])
qed

section \<open>Failures are reported, not raised (C7)\<close>

text \<open>
  C7, as stated, has every diagnostic identify the failing file. The clause
  \<open>except Exception\<close> prints only the message of the exception: for a malformed row of
  the intermediate file \<open>sma.txt\<close> the diagnostic names no file.
\<close>

theorem diagnostic_names_no_file_counterexample:
  "snd (process_corum_data (parses_to empty_subunits_example) writable only_input
          ''in.txt'' ''sma.txt'' ''out.txt'')
     = [''An unexpected error occurred: not enough values to unpack (expected 3, got 2)'']
   \<and> \<not> mentions ''An unexpected error occurred: not enough values to unpack (expected 3, got 2)'' ''sma.txt''
   \<and> \<not> mentions ''An unexpected error occurred: not enough values to unpack (expected 3, got 2)'' ''in.txt''"
  by code_simp

text \<open>
  C7, amended. Each failure of the taxonomy ends the run with exactly one printed
  diagnostic, and the run returns. A missing input file prints
  \<open>Error: Input file '<input path>' not found.\<close> and a parse failure prints
  \<open>Error: Could not parse input file '<input path>'. Check file format.\<close>; both contain
  the path of the input file, and nothing is written. A malformed row (a data line that
  does not split on tab into three fields, stripped or not) prints
  \<open>An unexpected error occurred: \<close> followed by the message of the unpacking error, and
  no final file is written. An exception other than \<open>FileNotFoundError\<close> raised when an
  output path is opened for writing prints \<open>An unexpected error occurred: \<close> followed by
  the message of the exception, and that file is not written. The last two diagnostics
  name a file only if the message of the exception does.
\<close>

theorem failures_are_reported:
  "(fs input_file = None \<longrightarrow>
      process_corum_data parser open_w fs input_file output_sma_file output_complexes_file
        = (fs, [''Error: Input file '' @ [SQUOTE] @ input_file @ [SQUOTE] @ '' not found.'']))
   \<and> (\<forall>text m. fs input_file = Some text \<and> parser text = Inl (ParserError m) \<longrightarrow>
      process_corum_data parser open_w fs input_file output_sma_file output_complexes_file
        = (fs, [''Error: Could not parse input file '' @ [SQUOTE] @ input_file @ [SQUOTE]
                 @ ''. Check file format.'']))
   \<and> (\<forall>df sma_df header data l.
        read_csv parser fs input_file = Inr df \<and> human_records df = Inr sma_df
        \<and> open_w output_sma_file = None
        \<and> file_lines (universal_newlines (to_csv sma_df)) = header # data
        \<and> l \<in> set data
        \<and> length (split_on TAB l) \<noteq> 3 \<and> length (split_on TAB (strip l)) \<noteq> 3 \<longrightarrow>
      (\<exists>n. n \<noteq> 3 \<and>
         process_corum_data parser open_w fs input_file output_sma_file output_complexes_file
           = (fs(output_sma_file \<mapsto> to_csv sma_df),
              [''An unexpected error occurred: '' @ str_exn (unpack_error n)])))
   \<and> (\<forall>df sma_df m.
        read_csv parser fs input_file = Inr df \<and> human_records df = Inr sma_df
        \<and> open_w output_sma_file = Some (OtherException m) \<longrightarrow>
      process_corum_data parser open_w fs input_file output_sma_file output_complexes_file
        = (fs, [''An unexpected error occurred: '' @ m]))
   \<and> (\<forall>df sma_df d m.
        read_csv parser fs input_file = Inr df \<and> human_records df = Inr sma_df
        \<and> open_w output_sma_file = None \<and> build_index (to_csv sma_df) = Inr d
        \<and> open_w output_complexes_file = Some (OtherException m) \<longrightarrow>
      process_corum_data parser open_w fs input_file output_sma_file output_complexes_file
        = (fs(output_sma_file \<mapsto> to_csv sma_df), [''An unexpected error occurred: '' @ m]))
   \<and> mentions (''Error: Input file '' @ [SQUOTE] @ input_file @ [SQUOTE] @ '' not found.'') input_file
   \<and> mentions (''Error: Could not parse input file '' @ [SQUOTE] @ input_file @ [SQUOTE]
                 @ ''. Check file format.'') input_file"
proof (intro conjI allI impI)
  assume "fs input_file = None"
  then show "process_corum_data parser open_w fs input_file output_sma_file output_complexes_file
        = (fs, [''Error: Input file '' @ [SQUOTE] @ input_file @ [SQUOTE] @ '' not found.''])"
    by (rule run_missing_input)
next
  fix contents m
  assume "fs input_file = Some contents \<and> parser contents = Inl (ParserError m)"
  then show "process_corum_data parser open_w fs input_file output_sma_file output_complexes_file
        = (fs, [''Error: Could not parse input file '' @ [SQUOTE] @ input_file @ [SQUOTE]
                 @ ''. Check file format.''])"
    using run_parse_failure by blast
next
  fix df sma_df header data l
  assume a: "read_csv parser fs input_file = Inr df \<and> human_records df = Inr sma_df
        \<and> open_w output_sma_file = None
        \<and> file_lines (universal_newlines (to_csv sma_df)) = header # data
        \<and> l \<in> set data
        \<and> length (split_on TAB l) \<noteq> 3 \<and> length (split_on TAB (strip l)) \<noteq> 3"
  show "\<exists>n. n \<noteq> 3 \<and>
         process_corum_data parser open_w fs input_file output_sma_file output_complexes_file
           = (fs(output_sma_file \<mapsto> to_csv sma_df),
              [''An unexpected error occurred: '' @ str_exn (unpack_error n)])"
    using a run_stops_at_malformed_row [where open_w = open_w and output_sma_file = output_sma_file
        and parser = parser and fs = fs and input_file = input_file and df = df
        and sma_df = sma_df and header = header and data = data and l = l]
    by blast
next
  fix df sma_df m
  assume a: "read_csv parser fs input_file = Inr df \<and> human_records df = Inr sma_df
        \<and> open_w output_sma_file = Some (OtherException m)"
  show "process_corum_data parser open_w fs input_file output_sma_file output_complexes_file
        = (fs, [''An unexpected error occurred: '' @ m])"
    using a run_sma_unwritable [where open_w = open_w and output_sma_file = output_sma_file
        and parser = parser and fs = fs and input_file = input_file and df = df
        and sma_df = sma_df and e = "OtherException m"]
    by simp
next
  fix df sma_df d m
  assume a: "read_csv parser fs input_file = Inr df \<and> human_records df = Inr sma_df
        \<and> open_w output_sma_file = None \<and> build_index (to_csv sma_df) = Inr d
        \<and> open_w output_complexes_file = Some (OtherException m)"
  show "process_corum_data parser open_w fs input_file output_sma_file output_complexes_file
        = (fs(output_sma_file \<mapsto> to_csv sma_df), [''An unexpected error occurred: '' @ m])"
    using a run_complexes_unwritable [where open_w = open_w and output_sma_file = output_sma_file
        and output_complexes_file = output_complexes_file
        and parser = parser and fs = fs and input_file = input_file and df = df
        and sma_df = sma_df and d = d and e = "OtherException m"]
    by simp
next
  show "mentions (''Error: Input file '' @ [SQUOTE] @ input_file @ [SQUOTE] @ '' not found.'') input_file"
    using mentions_middle [of "''Error: Input file '' @ [SQUOTE]" input_file "[SQUOTE] @ '' not found.''"]
    by simp
next
  show "mentions (''Error: Could not parse input file '' @ [SQUOTE] @ input_file @ [SQUOTE]
                 @ ''. Check file format.'') input_file"
    using mentions_middle [of "''Error: Could not parse input file '' @ [SQUOTE]" input_file
        "[SQUOTE] @ ''. Check file format.''"]
    by simp
qed

theorem failures_are_reported_witness:
  "(Map.empty ''in.txt'' = None
    \<and> process_corum_data (parses_to corum_example) writable Map.empty ''in.txt'' ''sma.txt'' ''out.txt''
        = (Map.empty, [''Error: Input file '' @ [SQUOTE] @ ''in.txt'' @ [SQUOTE] @ '' not found.'']))
   \<and> (only_input ''in.txt'' = Some [] \<and> fails_to_parse [] = Inl (ParserError ''Error tokenizing data'')
    \<and> process_corum_data fails_to_parse writable only_input ''in.txt'' ''sma.txt'' ''out.txt''
        = (only_input, [''Error: Could not parse input file '' @ [SQUOTE] @ ''in.txt'' @ [SQUOTE]
                         @ ''. Check file format.'']))
   \<and> (read_csv (parses_to quoted_example) only_input ''in.txt'' = Inr quoted_example
    \<and> human_records quoted_example = Inr quoted_sma
    \<and> writable ''sma.txt'' = None
    \<and> file_lines (universal_newlines (to_csv quoted_sma)) = sma_header # [quoted_line]
    \<and> quoted_line \<in> set [quoted_line]
    \<and> length (split_on TAB quoted_line) \<noteq> 3 \<and> length (split_on TAB (strip quoted_line)) \<noteq> 3
    \<and> (\<exists>n. n \<noteq> 3 \<and>
         process_corum_data (parses_to quoted_example) writable only_input ''in.txt'' ''sma.txt'' ''out.txt''
           = (only_input(''sma.txt'' \<mapsto> to_csv quoted_sma),
              [''An unexpected error occurred: '' @ str_exn (unpack_error n)])))
   \<and> (read_csv (parses_to corum_example) only_input ''in.txt'' = Inr corum_example
    \<and> human_records corum_example = Inr corum_sma
    \<and> raises_at ''sma.txt'' (OtherException ''[Errno 13] Permission denied'') ''sma.txt''
        = Some (OtherException ''[Errno 13] Permission denied'')
    \<and> process_corum_data (parses_to corum_example)
          (raises_at ''sma.txt'' (OtherException ''[Errno 13] Permission denied''))
          only_input ''in.txt'' ''sma.txt'' ''out.txt''
        = (only_input, [''An unexpected error occurred: '' @ ''[Errno 13] Permission denied'']))
   \<and> (raises_at ''out.txt'' (OtherException ''[Errno 13] Permission denied'') ''sma.txt'' = None
    \<and> build_index (to_csv corum_sma) = Inr [(''P2'', [''7'', ''7'']), (''P1'', [''7'', ''9'']), (''Q1'', [''9''])]
    \<and> raises_at ''out.txt'' (OtherException ''[Errno 13] Permission denied'') ''out.txt''
        = Some (OtherException ''[Errno 13] Permission denied'')
    \<and> process_corum_data (parses_to corum_example)
          (raises_at ''out.txt'' (OtherException ''[Errno 13] Permission denied''))
          only_input ''in.txt'' ''sma.txt'' ''out.txt''
        = (only_input(''sma.txt'' \<mapsto> to_csv corum_sma),
           [''An unexpected error occurred: '' @ ''[Errno 13] Permission denied'']))
   \<and> mentions (''Error: Input file '' @ [SQUOTE] @ ''in.txt'' @ [SQUOTE] @ '' not found.'') ''in.txt''"
proof -
  have a1: "Map.empty ''in.txt'' = None" by simp
  have b1: "only_input ''in.txt'' = Some []" by (simp add: only_input_def)
  have b2: "fails_to_parse [] = Inl (ParserError ''Error tokenizing data'')"
    by (simp add: fails_to_parse_def)
  have c1: "read_csv (parses_to quoted_example) only_input ''in.txt'' = Inr quoted_example"
    by (simp add: read_csv_def parses_to_def only_input_def)
  have c2: "human_records quoted_example = Inr quoted_sma" by code_simp
  have c3: "writable ''sma.txt'' = None" by (simp add: writable_def)
  have c4: "file_lines (universal_newlines (to_csv quoted_sma)) = sma_header # [quoted_line]"
    by code_simp
  have c5: "quoted_line \<in> set [quoted_line]" by simp
  have c6: "length (split_on TAB quoted_line) \<noteq> 3" by code_simp
  have c7: "length (split_on TAB (strip quoted_line)) \<noteq> 3" by code_simp
  have d1: "read_csv (parses_to corum_example) only_input ''in.txt'' = Inr corum_example"
    by (simp add: read_csv_def parses_to_def only_input_def)
  have d2: "human_records corum_example = Inr corum_sma" by code_simp
  have d3: "raises_at ''sma.txt'' (OtherException ''[Errno 13] Permission denied'') ''sma.txt''
        = Some (OtherException ''[Errno 13] Permission denied'')"
    by (simp add: raises_at_def)
  have e3: "raises_at ''out.txt'' (OtherException ''[Errno 13] Permission denied'') ''sma.txt'' = None"
    by (simp add: raises_at_def)
  have e4: "build_index (to_csv corum_sma) = Inr [(''P2'', [''7'', ''7'']), (''P1'', [''7'', ''9'']), (''Q1'', [''9''])]"
    by code_simp
  have e5: "raises_at ''out.txt'' (OtherException ''[Errno 13] Permission denied'') ''out.txt''
        = Some (OtherException ''[Errno 13] Permission denied'')"
    by (simp add: raises_at_def)
  note A = failures_are_reported [where fs = Map.empty and input_file = "''in.txt''"
      and parser = "parses_to corum_example" and open_w = writable
      and output_sma_file = "''sma.txt''" and output_complexes_file = "''out.txt''"]
  note B = failures_are_reported [where fs = only_input and input_file = "''in.txt''"
      and parser = fails_to_parse and open_w = writable
      and output_sma_file = "''sma.txt''" and output_complexes_file = "''out.txt''"]
  note C = failures_are_reported [where fs = only_input and input_file = "''in.txt''"
      and parser = "parses_to quoted_example" and open_w = writable
      and output_sma_file = "''sma.txt''" and output_complexes_file = "''out.txt''"]
  note D = failures_are_reported [where fs = only_input and input_file = "''in.txt''"
      and parser = "parses_to corum_example"
      and open_w = "raises_at ''sma.txt'' (OtherException ''[Errno 13] Permission denied'')"
      and output_sma_file = "''sma.txt''" and output_complexes_file = "''out.txt''"]
  note E = failures_are_reported [where fs = only_input and input_file = "''in.txt''"
      and parser = "parses_to corum_example"
      and open_w = "raises_at ''out.txt'' (OtherException ''[Errno 13] Permission denied'')"
      and output_sma_file = "''sma.txt''" and output_complexes_file = "''out.txt''"]
  have ra: "process_corum_data (parses_to corum_example) writable Map.empty ''in.txt'' ''sma.txt'' ''out.txt''
        = (Map.empty, [''Error: Input file '' @ [SQUOTE] @ ''in.txt'' @ [SQUOTE] @ '' not found.''])"
    using A a1 by blast
  have rb: "process_corum_data fails_to_parse writable only_input ''in.txt'' ''sma.txt'' ''out.txt''
        = (only_input, [''Error: Could not parse input file '' @ [SQUOTE] @ ''in.txt'' @ [SQUOTE]
                         @ ''. Check file format.''])"
    using B b1 b2 by blast
  have rc: "\<exists>n. n \<noteq> 3 \<and>
         process_corum_data (parses_to quoted_example) writable only_input ''in.txt'' ''sma.txt'' ''out.txt''
           = (only_input(''sma.txt'' \<mapsto> to_csv quoted_sma),
              [''An unexpected error occurred: '' @ str_exn (unpack_error n)])"
    using C c1 c2 c3 c4 c5 c6 c7 by blast
  have rd: "process_corum_data (parses_to corum_example)
          (raises_at ''sma.txt'' (OtherException ''[Errno 13] Permission denied''))
          only_input ''in.txt'' ''sma.txt'' ''out.txt''
        = (only_input, [''An unexpected error occurred: '' @ ''[Errno 13] Permission denied''])"
    using D d1 d2 d3 by blast
  have re: "process_corum_data (parses_to corum_example)
          (raises_at ''out.txt'' (OtherException ''[Errno 13] Permission denied''))
          only_input ''in.txt'' ''sma.txt'' ''out.txt''
        = (only_input(''sma.txt'' \<mapsto> to_csv corum_sma),
           [''An unexpected error occurred: '' @ ''[Errno 13] Permission denied''])"
    using E d1 d2 e3 e4 e5 by blast
  have rm: "mentions (''Error: Input file '' @ [SQUOTE] @ ''in.txt'' @ [SQUOTE] @ '' not found.'') ''in.txt''"
    using A by blast
  show ?thesis
    by (intro conjI a1 b1 b2 c1 c2 c3 c4 c5 c6 c7 d1 d2 d3 e3 e4 e5 ra rb rc rd re rm)
qed

section \<open>Running twice (C8)\<close>

text \<open>
  C8. A second run in the same environment, on the files the first run left, with the
  input file unchanged, leaves every file as the first run left it, the intermediate and
  the final file among them, and prints the same lines.
\<close>

theorem rerun_gives_same_files:
  assumes "process_corum_data parser open_w fs input_file output_sma_file output_complexes_file = (fs1, out1)"
    and "fs1 input_file = fs input_file"
  shows "process_corum_data parser open_w fs1 input_file output_sma_file output_complexes_file = (fs1, out1)"
  using assms
  by (auto simp: process_corum_data_def try_body_def read_csv_def read_index_def Let_def
           split: sum.splits option.splits if_splits)

theorem rerun_gives_same_files_witness:
  "process_corum_data (parses_to corum_example) writable only_input ''in.txt'' ''sma.txt'' ''out.txt''
     = (first_run_files, [])
   \<and> first_run_files ''in.txt'' = only_input ''in.txt''
   \<and> process_corum_data (parses_to corum_example) writable first_run_files ''in.txt'' ''sma.txt'' ''out.txt''
     = (first_run_files, [])"
proof -
  have sma: "human_records corum_example =
      Inr \<lparr>columns = sma_columns, rows = [[Num 7, Str ''Foo'', Str ''P2;P1; P2''], [Num 9, Str ''Bar'', Str ''Q1;P1;'']]\<rparr>"
    by code_simp
  have idx: "build_index (to_csv \<lparr>columns = sma_columns, rows = [[Num 7, Str ''Foo'', Str ''P2;P1; P2''], [Num 9, Str ''Bar'', Str ''Q1;P1;'']]\<rparr>)
      = Inr [(''P2'', [''7'', ''7'']), (''P1'', [''7'', ''9'']), (''Q1'', [''9''])]"
    by code_simp
  have h1: "process_corum_data (parses_to corum_example) writable only_input ''in.txt'' ''sma.txt'' ''out.txt''
     = (first_run_files, [])"
    by (simp add: process_corum_data_def try_body_def read_csv_def read_index_def parses_to_def
        writable_def only_input_def sma idx first_run_files_def)
  have h2: "first_run_files ''in.txt'' = only_input ''in.txt''"
    by (simp add: first_run_files_def only_input_def)
  show ?thesis
    by (intro conjI h1 h2 rerun_gives_same_files [OF h1 h2])
qed

end
